theory Spec2Isabelle
  imports Complex_Main
begin

section \<open>JavaScript numbers\<close>

text \<open>
  A JavaScript number is modelled as a real number, or one of the three special values
  of the language: \<open>Infinity\<close>, \<open>-Infinity\<close> and \<open>NaN\<close>. Finite arithmetic is exact:
  the rounding of IEEE doubles and the sign of zero are not modelled. The special
  values follow the operators of the language, so that \<open>Math.min()\<close> of no argument
  is \<open>Infinity\<close> and \<open>Infinity - Infinity\<close> is \<open>NaN\<close>.
\<close>

datatype jsnum = Num real | PosInf | NegInf | NaN

fun jneg :: "jsnum \<Rightarrow> jsnum" where
  "jneg (Num a) = Num (- a)"
| "jneg PosInf = NegInf"
| "jneg NegInf = PosInf"
| "jneg NaN = NaN"

fun jadd :: "jsnum \<Rightarrow> jsnum \<Rightarrow> jsnum" where
  "jadd NaN b = NaN"
| "jadd a NaN = NaN"
| "jadd (Num a) (Num b) = Num (a + b)"
| "jadd PosInf NegInf = NaN"
| "jadd NegInf PosInf = NaN"
| "jadd PosInf b = PosInf"
| "jadd a PosInf = PosInf"
| "jadd NegInf b = NegInf"
| "jadd a NegInf = NegInf"

definition jsub :: "jsnum \<Rightarrow> jsnum \<Rightarrow> jsnum" where
  "jsub a b = jadd a (jneg b)"

text \<open>The sign of a finite factor decides the sign of an infinite product; zero times
  infinity is \<open>NaN\<close>.\<close>

definition signed_inf :: "real \<Rightarrow> jsnum \<Rightarrow> jsnum" where
  "signed_inf a i = (if a = 0 then NaN else if 0 < a then i else jneg i)"

fun jmul :: "jsnum \<Rightarrow> jsnum \<Rightarrow> jsnum" where
  "jmul NaN b = NaN"
| "jmul a NaN = NaN"
| "jmul (Num a) (Num b) = Num (a * b)"
| "jmul (Num a) b = signed_inf a b"
| "jmul a (Num b) = signed_inf b a"
| "jmul PosInf b = b"
| "jmul NegInf b = jneg b"

fun jdiv :: "jsnum \<Rightarrow> jsnum \<Rightarrow> jsnum" where
  "jdiv NaN b = NaN"
| "jdiv a NaN = NaN"
| "jdiv (Num a) (Num b) = (if b = 0 then signed_inf a PosInf else Num (a / b))"
| "jdiv (Num a) b = Num 0"
| "jdiv a (Num b) = (if b < 0 then jneg a else a)"
| "jdiv a b = NaN"

text \<open>\<open>a > b\<close> and \<open>a < b\<close>: every comparison with \<open>NaN\<close> is false.\<close>

fun jgt :: "jsnum \<Rightarrow> jsnum \<Rightarrow> bool" where
  "jgt NaN b = False"
| "jgt a NaN = False"
| "jgt (Num a) (Num b) = (b < a)"
| "jgt PosInf b = (b \<noteq> PosInf)"
| "jgt NegInf b = False"
| "jgt (Num a) PosInf = False"
| "jgt (Num a) NegInf = True"

definition jlt :: "jsnum \<Rightarrow> jsnum \<Rightarrow> bool" where
  "jlt a b = jgt b a"

text \<open>\<open>x ** 2\<close> and \<open>Math.sqrt(x)\<close>.\<close>

fun jpow2 :: "jsnum \<Rightarrow> jsnum" where
  "jpow2 (Num a) = Num (a * a)"
| "jpow2 PosInf = PosInf"
| "jpow2 NegInf = PosInf"
| "jpow2 NaN = NaN"

fun Math_sqrt :: "jsnum \<Rightarrow> jsnum" where
  "Math_sqrt (Num a) = (if a < 0 then NaN else Num (sqrt a))"
| "Math_sqrt PosInf = PosInf"
| "Math_sqrt NegInf = NaN"
| "Math_sqrt NaN = NaN"

text \<open>
  \<open>Math.min(...xs)\<close> and \<open>Math.max(...xs)\<close>, as the language defines them: start from
  \<open>Infinity\<close> (\<open>-Infinity\<close>), give \<open>NaN\<close> at the first \<open>NaN\<close> argument, and keep an
  argument that is smaller (larger) than the value kept so far.
\<close>

fun min_from :: "jsnum \<Rightarrow> jsnum list \<Rightarrow> jsnum" where
  "min_from lowest [] = lowest"
| "min_from lowest (n # ns) =
     (if n = NaN then NaN else min_from (if jlt n lowest then n else lowest) ns)"

fun max_from :: "jsnum \<Rightarrow> jsnum list \<Rightarrow> jsnum" where
  "max_from highest [] = highest"
| "max_from highest (n # ns) =
     (if n = NaN then NaN else max_from (if jgt n highest then n else highest) ns)"

definition Math_min :: "jsnum list \<Rightarrow> jsnum" where
  "Math_min ns = min_from PosInf ns"

definition Math_max :: "jsnum list \<Rightarrow> jsnum" where
  "Math_max ns = max_from NegInf ns"

section \<open>The Keypoint Mapper\<close>

text \<open>
  A landmark of the pose detector carries normalized image coordinates; the mapper
  reads only \<open>x\<close> and \<open>y\<close>. The fields are named \<open>lm_x\<close> and \<open>lm_y\<close>.
\<close>

record keypoint =
  lm_x :: jsnum
  lm_y :: jsnum

record BoundingBox =
  minX :: jsnum
  maxX :: jsnum
  minY :: jsnum
  maxY :: jsnum
  color :: string

record BodyBoundingBoxes =
  leftHand :: BoundingBox
  rightHand :: BoundingBox
  leftLeg :: BoundingBox
  rightLeg :: BoundingBox
  head :: BoundingBox
  torso :: BoundingBox

text \<open>The exceptions of the modelled code: a property read on \<open>undefined\<close>, and
  a failure of the pose detector.\<close>

datatype error = TypeError | DetectionError

text \<open>\<open>pose[i]\<close> is \<open>undefined\<close> (here \<open>None\<close>) at and beyond the length of the array;
  \<open>pose.slice(0, n)\<close> keeps the elements that exist.\<close>

definition at_index :: "'a list \<Rightarrow> nat \<Rightarrow> 'a option" where
  "at_index xs i = (if i < length xs then Some (xs ! i) else None)"

definition slice0 :: "'a list \<Rightarrow> nat \<Rightarrow> 'a option list" where
  "slice0 xs n = map Some (take n xs)"

definition padding :: jsnum where
  "padding = Num (5 / 100)"

definition ndcX :: "keypoint \<Rightarrow> jsnum" where
  "ndcX p = jsub (jmul (lm_x p) (Num 2)) (Num 1)"

definition ndcY :: "keypoint \<Rightarrow> jsnum" where
  "ndcY p = jneg (jsub (jmul (lm_y p) (Num 2)) (Num 1))"

text \<open>
  \<open>createBox\<close>: the first \<open>points.map\<close> reads \<open>p.x\<close> of every point and throws a
  TypeError at a point that is \<open>undefined\<close>; otherwise the box is computed from the
  converted coordinates.
\<close>

definition createBox :: "keypoint option list \<Rightarrow> string \<Rightarrow> error + BoundingBox" where
  "createBox points col =
     (case those points of
        None \<Rightarrow> Inl TypeError
      | Some ps \<Rightarrow>
          (let xs = map ndcX ps;
               ys = map ndcY ps;
               mnX = Math_min xs;
               mxX = Math_max xs;
               mnY = Math_min ys;
               mxY = Math_max ys;
               width = jsub mxX mnX;
               height = jsub mxY mnY
           in Inr \<lparr> minX = jsub mnX (jmul width padding),
                    maxX = jadd mxX (jmul width padding),
                    minY = jsub mnY (jmul height padding),
                    maxY = jadd mxY (jmul height padding),
                    color = col \<rparr>))"

text \<open>Sequencing of computations that may throw.\<close>

definition bind_err :: "error + 'a \<Rightarrow> ('a \<Rightarrow> error + 'b) \<Rightarrow> error + 'b" where
  "bind_err r f = (case r of Inl e \<Rightarrow> Inl e | Inr v \<Rightarrow> f v)"

text \<open>
  \<open>calculateBodyBoundingBoxes\<close>: the argument is \<open>None\<close> when it is absent
  (\<open>undefined\<close> or \<open>null\<close>), otherwise the list of detected poses. The result is
  \<open>Inr None\<close> for \<open>null\<close>. The six boxes are built in the order of the object literal.
\<close>

definition calculateBodyBoundingBoxes ::
  "keypoint list list option \<Rightarrow> error + BodyBoundingBoxes option" where
  "calculateBodyBoundingBoxes poseLandmarks =
     (case poseLandmarks of
        None \<Rightarrow> Inr None
      | Some [] \<Rightarrow> Inr None
      | Some (pose # others) \<Rightarrow>
          bind_err (createBox (slice0 pose 11) ''yellow'') (\<lambda>hd_box.
          bind_err (createBox [at_index pose 15, at_index pose 17,
                               at_index pose 19, at_index pose 21] ''blue'') (\<lambda>lh.
          bind_err (createBox [at_index pose 16, at_index pose 18,
                               at_index pose 20, at_index pose 22] ''green'') (\<lambda>rh.
          bind_err (createBox [at_index pose 23, at_index pose 25, at_index pose 27,
                               at_index pose 29, at_index pose 31] ''purple'') (\<lambda>ll.
          bind_err (createBox [at_index pose 24, at_index pose 26, at_index pose 28,
                               at_index pose 30, at_index pose 32] ''orange'') (\<lambda>rl.
          bind_err (createBox [at_index pose 11, at_index pose 12,
                               at_index pose 23, at_index pose 24] ''red'') (\<lambda>to.
          Inr (Some \<lparr> leftHand = lh, rightHand = rh, leftLeg = ll, rightLeg = rl,
                      head = hd_box, torso = to \<rparr>))))))))"

text \<open>\<open>Object.entries\<close> and \<open>Object.values\<close> of the result list the six parts in the
  order in which the object literal creates them.\<close>

definition Object_entries :: "BodyBoundingBoxes \<Rightarrow> (string \<times> BoundingBox) list" where
  "Object_entries b =
     [(''head'', head b), (''leftHand'', leftHand b), (''rightHand'', rightHand b),
      (''leftLeg'', leftLeg b), (''rightLeg'', rightLeg b), (''torso'', torso b)]"

text \<open>A keypoint with finite coordinates, as the pose detector produces them.\<close>

definition finite_point :: "real \<times> real \<Rightarrow> keypoint" where
  "finite_point c = \<lparr> lm_x = Num (fst c), lm_y = Num (snd c) \<rparr>"

text \<open>
  The conversion to centered device coordinates in the words of the specification,
  \<open>ndcX = x*2-1\<close> and \<open>ndcY = -(y*2-1)\<close>, on real numbers. The functions
  \<open>ndcX\<close> and \<open>ndcY\<close> above are the ones of the code.
\<close>

definition spec_ndcX :: "real \<Rightarrow> real" where
  "spec_ndcX a = a * 2 - 1"

definition spec_ndcY :: "real \<Rightarrow> real" where
  "spec_ndcY b = - (b * 2 - 1)"

text \<open>
  The boxes in the words of the specification. The raw box of a group of points is
  the least and the greatest converted coordinate on each axis; its width and its
  height are their differences; the padded box is the raw box expanded by 5% of the
  width on the left and on the right and by 5% of the height below and above.
\<close>

definition spec_rawMinX :: "(real \<times> real) list \<Rightarrow> real" where
  "spec_rawMinX pts = Min (spec_ndcX ` fst ` set pts)"

definition spec_rawMaxX :: "(real \<times> real) list \<Rightarrow> real" where
  "spec_rawMaxX pts = Max (spec_ndcX ` fst ` set pts)"

definition spec_rawMinY :: "(real \<times> real) list \<Rightarrow> real" where
  "spec_rawMinY pts = Min (spec_ndcY ` snd ` set pts)"

definition spec_rawMaxY :: "(real \<times> real) list \<Rightarrow> real" where
  "spec_rawMaxY pts = Max (spec_ndcY ` snd ` set pts)"

definition spec_width :: "(real \<times> real) list \<Rightarrow> real" where
  "spec_width pts = spec_rawMaxX pts - spec_rawMinX pts"

definition spec_height :: "(real \<times> real) list \<Rightarrow> real" where
  "spec_height pts = spec_rawMaxY pts - spec_rawMinY pts"

definition spec_paddedBox :: "(real \<times> real) list \<Rightarrow> string \<Rightarrow> BoundingBox" where
  "spec_paddedBox pts col =
     \<lparr> minX = Num (spec_rawMinX pts - spec_width pts * (5 / 100)),
       maxX = Num (spec_rawMaxX pts + spec_width pts * (5 / 100)),
       minY = Num (spec_rawMinY pts - spec_height pts * (5 / 100)),
       maxY = Num (spec_rawMaxY pts + spec_height pts * (5 / 100)),
       color = col \<rparr>"

text \<open>
  The groups of the six body parts in the fixed layout of the landmarks: for every
  part the positions of its keypoints in the pose. The points of a group are the
  keypoints of a pose at these positions; the box of a part is the entry of the part
  in the result of the mapper.
\<close>

definition partIndices :: "(string \<times> nat list) list" where
  "partIndices =
     [(''head'', [0, 1, 2, 3, 4, 5, 6, 7, 8, 9, 10]),
      (''leftHand'', [15, 17, 19, 21]),
      (''rightHand'', [16, 18, 20, 22]),
      (''leftLeg'', [23, 25, 27, 29, 31]),
      (''rightLeg'', [24, 26, 28, 30, 32]),
      (''torso'', [11, 12, 23, 24])]"

definition groupPoints :: "'a list \<Rightarrow> nat list \<Rightarrow> 'a list" where
  "groupPoints pose idx = map (\<lambda>i. pose ! i) idx"

definition partBox :: "BodyBoundingBoxes \<Rightarrow> string \<Rightarrow> BoundingBox option" where
  "partBox b = map_of (Object_entries b)"

text \<open>A pose for the examples: four landmarks at the corners \<open>(\<plusminus>0.5, \<plusminus>0.5)\<close> of
  device space, the other 29 in the middle.\<close>

definition corner_pose :: "(real \<times> real) list" where
  "corner_pose =
     [(1 / 4, 3 / 4), (3 / 4, 3 / 4), (3 / 4, 1 / 4), (1 / 4, 1 / 4)]
     @ replicate 29 (1 / 2, 1 / 2)"

section \<open>Objects of the 3D scene and of the physics world\<close>

record vec3 =
  vx :: jsnum
  vy :: jsnum
  vz :: jsnum

record quat =
  qx :: jsnum
  qy :: jsnum
  qz :: jsnum
  qw :: jsnum

definition vec :: "real \<Rightarrow> real \<Rightarrow> real \<Rightarrow> vec3" where
  "vec a b c = \<lparr> vx = Num a, vy = Num b, vz = Num c \<rparr>"

definition identity_quat :: quat where
  "identity_quat = \<lparr> qx = Num 0, qy = Num 0, qz = Num 0, qw = Num 1 \<rparr>"

text \<open>
  An object of the scene graph. Helpers, lights and groups have no geometry. The
  material is kept as its colour, which is absent when \<open>colors[part]\<close> is
  \<open>undefined\<close>. A new object sits at the origin, unscaled and unrotated.
\<close>

datatype geometry =
    BoxGeometry jsnum jsnum jsnum
  | SphereGeometry jsnum
  | PlaneGeometry jsnum jsnum
  | NoGeometry

record Mesh =
  geometry :: geometry
  material_color :: "nat option"
  position :: vec3
  scale :: vec3
  quaternion :: quat
  castShadow :: bool

definition new_Mesh :: "geometry \<Rightarrow> nat option \<Rightarrow> Mesh" where
  "new_Mesh g c = \<lparr> geometry = g, material_color = c, position = vec 0 0 0,
                     scale = vec 1 1 1, quaternion = identity_quat, castShadow = False \<rparr>"

text \<open>
  A rigid body of the physics engine, and a collider. Restitution and friction are
  \<open>None\<close> where the code leaves them at the engine's default.
\<close>

record RigidBody =
  translation :: vec3
  rotation :: quat
  linvel :: vec3
  linearDamping :: jsnum
  angularDamping :: jsnum

datatype shape = Cuboid jsnum jsnum jsnum | Ball jsnum

record Collider =
  shape :: shape
  restitution :: "jsnum option"
  friction :: "jsnum option"
  parent :: "nat option"

text \<open>
  The physics world: the store of rigid bodies by handle, the handles that are live,
  the colliders, the gravity, and the number of \<open>step()\<close> calls made so far.
\<close>

record World =
  gravity :: vec3
  bodies :: "nat \<Rightarrow> RigidBody"
  handles :: "nat list"
  nextHandle :: nat
  colliders :: "Collider list"
  steps :: nat

text \<open>
  The simulation of one time step belongs to the physics engine. It is a parameter:
  a function from the world to the states of its bodies after the step.
\<close>

type_synonym physics = "World \<Rightarrow> nat \<Rightarrow> RigidBody"

definition World_new :: "vec3 \<Rightarrow> World" where
  "World_new g = \<lparr> gravity = g,
                    bodies = (\<lambda>h. \<lparr> translation = vec 0 0 0, rotation = identity_quat,
                                     linvel = vec 0 0 0, linearDamping = Num 0,
                                     angularDamping = Num 0 \<rparr>),
                    handles = [], nextHandle = 0, colliders = [], steps = 0 \<rparr>"

definition World_step :: "physics \<Rightarrow> World \<Rightarrow> World" where
  "World_step phys w = w\<lparr> bodies := phys w, steps := Suc (steps w) \<rparr>"

definition createRigidBody :: "World \<Rightarrow> nat \<times> World" where
  "createRigidBody w =
     (let h = nextHandle w
      in (h, w\<lparr> bodies := (bodies w)(h := \<lparr> translation = vec 0 0 0,
                                               rotation = identity_quat,
                                               linvel = vec 0 0 0,
                                               linearDamping = Num 0,
                                               angularDamping = Num 0 \<rparr>),
                 handles := handles w @ [h],
                 nextHandle := Suc h \<rparr>))"

definition createCollider :: "Collider \<Rightarrow> World \<Rightarrow> World" where
  "createCollider c w = w\<lparr> colliders := colliders w @ [c] \<rparr>"

definition removeRigidBody :: "nat \<Rightarrow> World \<Rightarrow> World" where
  "removeRigidBody h w =
     w\<lparr> handles := removeAll h (handles w),
        colliders := filter (\<lambda>c. parent c \<noteq> Some h) (colliders w) \<rparr>"

definition setTranslation :: "nat \<Rightarrow> vec3 \<Rightarrow> World \<Rightarrow> World" where
  "setTranslation h v w = w\<lparr> bodies := (bodies w)(h := (bodies w h)\<lparr> translation := v \<rparr>) \<rparr>"

definition setLinvel :: "nat \<Rightarrow> vec3 \<Rightarrow> World \<Rightarrow> World" where
  "setLinvel h v w = w\<lparr> bodies := (bodies w)(h := (bodies w h)\<lparr> linvel := v \<rparr>) \<rparr>"

definition setLinearDamping :: "nat \<Rightarrow> jsnum \<Rightarrow> World \<Rightarrow> World" where
  "setLinearDamping h d w =
     w\<lparr> bodies := (bodies w)(h := (bodies w h)\<lparr> linearDamping := d \<rparr>) \<rparr>"

definition setAngularDamping :: "nat \<Rightarrow> jsnum \<Rightarrow> World \<Rightarrow> World" where
  "setAngularDamping h d w =
     w\<lparr> bodies := (bodies w)(h := (bodies w h)\<lparr> angularDamping := d \<rparr>) \<rparr>"

section \<open>The scene\<close>

text \<open>
  A ball pairs a mesh with a rigid body; both are held by identity. The scene keeps
  the children of the scene graph, the store of its objects, the proxies by body
  part, the physics world, the live balls in the order of their spawning, and the
  number of draw calls made so far.
\<close>

record ball =
  mesh :: nat
  rigidBody :: nat

record SoccerScene =
  children :: "nat list"
  objects :: "nat \<Rightarrow> Mesh"
  nextObject :: nat
  colliderBoxes :: "string \<rightharpoonup> nat"
  rapierWorld :: World
  balls :: "ball list"
  rendered :: nat

text \<open>
  \<open>scene_add\<close> is the construction of a new object followed by \<open>scene.add\<close>: the
  object gets the next identity and becomes the last child of the scene graph.
  \<open>scene_remove\<close> is \<open>scene.remove\<close>: the object leaves the children.
\<close>

definition scene_add :: "Mesh \<Rightarrow> SoccerScene \<Rightarrow> nat \<times> SoccerScene" where
  "scene_add m s =
     (let i = nextObject s
      in (i, s\<lparr> objects := (objects s)(i := m), nextObject := Suc i,
                 children := children s @ [i] \<rparr>))"

definition scene_remove :: "nat \<Rightarrow> SoccerScene \<Rightarrow> SoccerScene" where
  "scene_remove i s = s\<lparr> children := remove1 i (children s) \<rparr>"

text \<open>
  The constructor: the axes helper, the grid helper, the reference cube, three
  lights, the ground and the goal enter the scene graph in this order; the world has
  the gravity of the Earth and the collider of the ground. The rotation of the ground
  and the parts of the goal play no role and are left out.
\<close>

definition SoccerScene_new :: SoccerScene where
  "SoccerScene_new =
     (let s0 = \<lparr> children = [], objects = (\<lambda>i. new_Mesh NoGeometry None), nextObject = 0,
                 colliderBoxes = Map.empty,
                 rapierWorld = World_new (vec 0 (- 981 / 100) 0),
                 balls = [], rendered = 0 \<rparr>;
          s1 = snd (scene_add (new_Mesh NoGeometry None) s0);
          s2 = snd (scene_add (new_Mesh NoGeometry None) s1);
          s3 = snd (scene_add ((new_Mesh (BoxGeometry (Num 1) (Num 1) (Num 1)) (Some 0x00ff00))
                                 \<lparr> position := vec 0 1 0 \<rparr>) s2);
          s4 = snd (scene_add (new_Mesh NoGeometry None) s3);
          s5 = snd (scene_add ((new_Mesh NoGeometry None)
                                 \<lparr> position := vec 5 10 5, castShadow := True \<rparr>) s4);
          s6 = snd (scene_add ((new_Mesh NoGeometry None)\<lparr> position := vec 0 5 5 \<rparr>) s5);
          s7 = snd (scene_add (new_Mesh (PlaneGeometry (Num 20) (Num 20)) (Some 0x3c8f40)) s6);
          s8 = snd (scene_add (new_Mesh NoGeometry None) s7)
      in s8\<lparr> rapierWorld :=
               createCollider \<lparr> shape = Cuboid (Num 10) (Num (1 / 10)) (Num 10),
                                restitution = None, friction = None, parent = None \<rparr>
                 (rapierWorld s8) \<rparr>)"

subsection \<open>Projectiles\<close>

definition maxBalls :: nat where
  "maxBalls = 10"

definition removalDistance :: jsnum where
  "removalDistance = Num 10"

definition distanceFromOrigin :: "vec3 \<Rightarrow> jsnum" where
  "distanceFromOrigin p = Math_sqrt (jadd (jadd (jpow2 (vx p)) (jpow2 (vy p))) (jpow2 (vz p)))"

text \<open>The test of the filter in \<open>cleanupBalls\<close>, on the position of the ball's mesh.\<close>

definition tooFar :: "SoccerScene \<Rightarrow> ball \<Rightarrow> bool" where
  "tooFar s b = jgt (distanceFromOrigin (position (objects s (mesh b)))) removalDistance"

text \<open>Both removals release the mesh and the rigid body together.\<close>

definition removeBall :: "ball \<Rightarrow> SoccerScene \<Rightarrow> SoccerScene" where
  "removeBall b s =
     (scene_remove (mesh b) s)\<lparr> rapierWorld := removeRigidBody (rigidBody b) (rapierWorld s) \<rparr>"

text \<open>
  The filter of \<open>cleanupBalls\<close> visits the balls from the oldest to the newest; its
  callback removes a ball that is too far and keeps the others. The result is the
  list of the balls kept and the scene after the removals.
\<close>

fun filterBalls :: "ball list \<Rightarrow> SoccerScene \<Rightarrow> ball list \<times> SoccerScene" where
  "filterBalls [] s = ([], s)"
| "filterBalls (b # bs) s =
     (if tooFar s b then filterBalls bs (removeBall b s)
      else (let (kept, s') = filterBalls bs s in (b # kept, s')))"

text \<open>
  The loop of \<open>cleanupBalls\<close>: while there are more balls than \<open>maxBalls\<close>, shift the
  oldest one out and remove it. \<open>shift()\<close> on an empty array gives \<open>undefined\<close>; the
  loop is not entered with an empty array.
\<close>

function evictOldest :: "SoccerScene \<Rightarrow> SoccerScene" where
  "evictOldest s =
     (if maxBalls < length (balls s)
      then (case balls s of
              [] \<Rightarrow> s
            | oldestBall # rest \<Rightarrow> evictOldest (removeBall oldestBall (s\<lparr> balls := rest \<rparr>)))
      else s)"
  by pat_completeness auto
termination
  by (relation "measure (\<lambda>s. length (balls s))")
     (auto simp: removeBall_def scene_remove_def)

declare evictOldest.simps [simp del]

definition cleanupBalls :: "SoccerScene \<Rightarrow> SoccerScene" where
  "cleanupBalls s =
     (let (kept, s1) = filterBalls (balls s) s
      in evictOldest (s1\<lparr> balls := kept \<rparr>))"

text \<open>
  \<open>spawnBall\<close> up to its last statement: the mesh of the new ball enters the scene
  graph, its rigid body and its collider enter the world, and the ball is pushed at
  the end of \<open>balls\<close>. The last statement of \<open>spawnBall\<close> is the call of
  \<open>cleanupBalls\<close>.
\<close>

definition addBall :: "SoccerScene \<Rightarrow> SoccerScene" where
  "addBall s =
     (let ballRadius = Num (1 / 2);
          ballMesh = (new_Mesh (SphereGeometry ballRadius) (Some 0xff0000))
                       \<lparr> position := vec 0 2 4, castShadow := True \<rparr>;
          (m, s1) = scene_add ballMesh s;
          (h, w1) = createRigidBody (rapierWorld s1);
          w2 = setTranslation h (vec 0 2 4) w1;
          w3 = setLinearDamping h (Num (1 / 2)) w2;
          w4 = setAngularDamping h (Num (1 / 2)) w3;
          w5 = createCollider \<lparr> shape = Ball ballRadius, restitution = Some (Num (7 / 10)),
                                friction = Some (Num (3 / 10)), parent = Some h \<rparr> w4;
          w6 = setLinvel h (vec 0 (- 1) 0) w5
      in s1\<lparr> rapierWorld := w6, balls := balls s1 @ [\<lparr> mesh = m, rigidBody = h \<rparr>] \<rparr>)"

definition spawnBall :: "SoccerScene \<Rightarrow> SoccerScene" where
  "spawnBall s = cleanupBalls (addBall s)"

subsection \<open>Collider proxies\<close>

definition colors :: "string \<rightharpoonup> nat" where
  "colors = map_of [(''head'', 0xffff00), (''leftHand'', 0x0000ff),
                    (''rightHand'', 0x00ff00), (''leftLeg'', 0x800080),
                    (''rightLeg'', 0xffa500), (''torso'', 0xff0000)]"

text \<open>
  The body of the \<open>forEach\<close> in \<open>updateColliderBoxes\<close>, for one entry: create the
  proxy and add it to the scene graph if the part has none, then set the scale and
  the position of the part's proxy from the box.

  \<open>colliderBoxes\<close> is a plain object, so that a lookup by a name that every object
  inherits, such as \<open>constructor\<close>, finds the inherited property, no proxy is
  created, and the call throws. These names are no body parts. They are outside the
  model: the properties of the proxies below are stated for entries with other
  names.
\<close>

definition Object_prototype_names :: "string list" where
  "Object_prototype_names =
     [''constructor'', ''hasOwnProperty'', ''isPrototypeOf'', ''propertyIsEnumerable'',
      ''toLocaleString'', ''toString'', ''valueOf'', ''__proto__'',
      ''__defineGetter__'', ''__defineSetter__'', ''__lookupGetter__'', ''__lookupSetter__'']"

definition ownNames :: "(string \<times> BoundingBox) list \<Rightarrow> bool" where
  "ownNames bodyBoxes = list_all (\<lambda>e. fst e \<notin> set Object_prototype_names) bodyBoxes"

definition proxyFor :: "string \<Rightarrow> SoccerScene \<Rightarrow> nat \<times> SoccerScene" where
  "proxyFor part s =
     (case colliderBoxes s part of
        Some m \<Rightarrow> (m, s)
      | None \<Rightarrow>
          (let (m, s1) = scene_add (new_Mesh (BoxGeometry (Num 1) (Num 1) (Num (2 / 10)))
                                      (colors part)) s
           in (m, s1\<lparr> colliderBoxes := (colliderBoxes s1)(part \<mapsto> m) \<rparr>)))"

definition updateColliderBox :: "string \<times> BoundingBox \<Rightarrow> SoccerScene \<Rightarrow> SoccerScene" where
  "updateColliderBox entry s =
     (let part = fst entry;
          box = snd entry;
          (m, s1) = proxyFor part s;
          width = jsub (maxX box) (minX box);
          height = jsub (maxY box) (minY box);
          centerX = jdiv (jadd (maxX box) (minX box)) (Num 2);
          centerY = jdiv (jadd (maxY box) (minY box)) (Num 2)
      in s1\<lparr> objects := (objects s1)(m := (objects s1 m)
               \<lparr> position := \<lparr> vx = jmul centerX (Num 3), vy = jmul centerY (Num 3), vz = Num 0 \<rparr>,
                 scale := \<lparr> vx = jmul width (Num 3), vy = jmul height (Num 3),
                            vz = Num (2 / 10) \<rparr> \<rparr>) \<rparr>)"

text \<open>The argument is the list of the entries of \<open>bodyBoxes\<close>, in the order of
  \<open>Object.entries\<close>.\<close>

definition updateColliderBoxes :: "(string \<times> BoundingBox) list \<Rightarrow> SoccerScene \<Rightarrow> SoccerScene" where
  "updateColliderBoxes bodyBoxes s = fold updateColliderBox bodyBoxes s"

text \<open>
  The placement of a proxy in the words of the specification: the centre and the
  extents of the box in device space, times the scale factor 3, at the depth 0 and
  with the thin depth \<open>0.2\<close>.
\<close>

definition spec_worldCenter :: "BoundingBox \<Rightarrow> vec3" where
  "spec_worldCenter box =
     \<lparr> vx = jmul (jdiv (jadd (maxX box) (minX box)) (Num 2)) (Num 3),
       vy = jmul (jdiv (jadd (maxY box) (minY box)) (Num 2)) (Num 3),
       vz = Num 0 \<rparr>"

definition spec_worldExtent :: "BoundingBox \<Rightarrow> vec3" where
  "spec_worldExtent box =
     \<lparr> vx = jmul (jsub (maxX box) (minX box)) (Num 3),
       vy = jmul (jsub (maxY box) (minY box)) (Num 3),
       vz = Num (2 / 10) \<rparr>"

subsection \<open>Rendering\<close>

text \<open>
  The body of the \<open>forEach\<close> in \<open>render\<close>: the translation and the rotation of the
  ball's rigid body are read, and their components are written into the position and
  the quaternion of the ball's mesh.
\<close>

definition syncBall :: "ball \<Rightarrow> SoccerScene \<Rightarrow> SoccerScene" where
  "syncBall b s =
     (let pos = translation (bodies (rapierWorld s) (rigidBody b));
          rot = rotation (bodies (rapierWorld s) (rigidBody b))
      in s\<lparr> objects := (objects s)(mesh b := (objects s (mesh b))
              \<lparr> position := \<lparr> vx = vx pos, vy = vy pos, vz = vz pos \<rparr>,
                quaternion := \<lparr> qx = qx rot, qy = qy rot, qz = qz rot, qw = qw rot \<rparr> \<rparr>) \<rparr>)"

text \<open>\<open>render\<close> up to its last line: step the world, update the meshes of the balls,
  draw.\<close>

definition renderScene :: "physics \<Rightarrow> SoccerScene \<Rightarrow> SoccerScene" where
  "renderScene phys s =
     (let s1 = s\<lparr> rapierWorld := World_step phys (rapierWorld s) \<rparr>;
          s2 = fold syncBall (balls s1) s1
      in s2\<lparr> rendered := Suc (rendered s2) \<rparr>)"

text \<open>
  The scene is driven through three of its methods: the timer calls \<open>spawnBall\<close>,
  the page calls \<open>updateColliderBoxes\<close> and \<open>render\<close>. A run is a sequence of such
  calls, each \<open>render\<close> with the behaviour of the physics engine in its step.
\<close>

datatype call =
    SpawnBall
  | Render physics
  | UpdateColliderBoxes "(string \<times> BoundingBox) list"

fun exec :: "call \<Rightarrow> SoccerScene \<Rightarrow> SoccerScene" where
  "exec SpawnBall s = spawnBall s"
| "exec (Render phys) s = renderScene phys s"
| "exec (UpdateColliderBoxes bodyBoxes) s = updateColliderBoxes bodyBoxes s"

fun run :: "call list \<Rightarrow> SoccerScene \<Rightarrow> SoccerScene" where
  "run [] s = s"
| "run (c # cs) s = run cs (exec c s)"

text \<open>A run with no call of \<open>updateColliderBoxes\<close>.\<close>

definition noUpdates :: "call list \<Rightarrow> bool" where
  "noUpdates cs = list_all (\<lambda>c. case c of UpdateColliderBoxes bodyBoxes \<Rightarrow> False | _ \<Rightarrow> True) cs"

text \<open>The ball that a spawn tick creates in state \<open>s\<close>, and the balls that the spawn
  ticks of a run create, from the first to the last.\<close>

definition newBall :: "SoccerScene \<Rightarrow> ball" where
  "newBall s = \<lparr> mesh = nextObject s, rigidBody = nextHandle (rapierWorld s) \<rparr>"

fun spawned :: "call list \<Rightarrow> SoccerScene \<Rightarrow> ball list" where
  "spawned [] s = []"
| "spawned (SpawnBall # cs) s = newBall s # spawned cs (exec SpawnBall s)"
| "spawned (c # cs) s = spawned cs (exec c s)"

text \<open>No live ball is beyond the removal distance, in a state and in every state of
  a run.\<close>

definition allNear :: "SoccerScene \<Rightarrow> bool" where
  "allNear s = list_all (\<lambda>b. \<not> tooFar s b) (balls s)"

fun neverTooFar :: "call list \<Rightarrow> SoccerScene \<Rightarrow> bool" where
  "neverTooFar [] s = allNear s"
| "neverTooFar (c # cs) s = (allNear s \<and> neverTooFar cs (exec c s))"

text \<open>Boxes for the examples: a head box in two consecutive frames, and a torso box.\<close>

definition head_frame1 :: BoundingBox where
  "head_frame1 = \<lparr> minX = Num (- 1 / 2), maxX = Num (1 / 2), minY = Num 0, maxY = Num 1,
                    color = ''yellow'' \<rparr>"

definition head_frame2 :: BoundingBox where
  "head_frame2 = \<lparr> minX = Num 0, maxX = Num (1 / 2), minY = Num (1 / 2), maxY = Num 1,
                    color = ''yellow'' \<rparr>"

definition torso_frame1 :: BoundingBox where
  "torso_frame1 = \<lparr> minX = Num (- 1 / 2), maxX = Num (1 / 2), minY = Num (- 1), maxY = Num 0,
                     color = ''red'' \<rparr>"

text \<open>
  Two behaviours of the physics engine for the examples: one leaves every body where
  it is, the other moves every body to the point \<open>(20, 0, 0)\<close>.
\<close>

definition physics_still :: physics where
  "physics_still w = bodies w"

definition physics_fling :: physics where
  "physics_fling w = (\<lambda>h. (bodies w h)\<lparr> translation := vec 20 0 0 \<rparr>)"

text \<open>
  Objects are told apart by their identity. In a well-formed scene the meshes of the
  balls, the children of the scene graph and the proxies have been allocated, no two
  balls share a mesh, no object is in the scene graph twice, every proxy is in the
  scene graph, no two body parts share a proxy, and no proxy is the mesh of a ball.
\<close>

definition wellFormed :: "SoccerScene \<Rightarrow> bool" where
  "wellFormed s \<longleftrightarrow>
     list_all (\<lambda>b. mesh b < nextObject s) (balls s) \<and>
     distinct (map mesh (balls s)) \<and>
     list_all (\<lambda>i. i < nextObject s) (children s) \<and>
     distinct (children s) \<and>
     (\<forall>part m. colliderBoxes s part = Some m \<longrightarrow>
        m < nextObject s \<and> m \<in> set (children s) \<and> m \<notin> mesh ` set (balls s) \<and>
        (\<forall>part'. colliderBoxes s part' = Some m \<longrightarrow> part' = part))"

section \<open>The page\<close>

text \<open>
  The page holds the scene, the callbacks requested for the next display frame (each
  with the id that \<open>requestAnimationFrame\<close> returned), the ids cancelled during the
  current frame, the variable \<open>animationId\<close> and the status text. Drawing on the 2D
  canvas is not part of the state.
\<close>

datatype callback = CbDetectPose | CbRender

record page =
  soccerScene :: SoccerScene
  rafQueue :: "(nat \<times> callback) list"
  nextRafId :: nat
  cancelled :: "nat list"
  animationId :: "nat option"
  statusDiv :: string

definition page_new :: page where
  "page_new = \<lparr> soccerScene = SoccerScene_new, rafQueue = [], nextRafId = 1,
                 cancelled = [], animationId = None, statusDiv = [] \<rparr>"

definition requestAnimationFrame :: "callback \<Rightarrow> page \<Rightarrow> nat \<times> page" where
  "requestAnimationFrame cb pg =
     (let i = nextRafId pg
      in (i, pg\<lparr> rafQueue := rafQueue pg @ [(i, cb)], nextRafId := Suc i \<rparr>))"

definition cancelAnimationFrame :: "nat option \<Rightarrow> page \<Rightarrow> page" where
  "cancelAnimationFrame ident pg =
     (case ident of
        None \<Rightarrow> pg
      | Some i \<Rightarrow> pg\<lparr> rafQueue := filter (\<lambda>r. fst r \<noteq> i) (rafQueue pg),
                       cancelled := i # cancelled pg \<rparr>)"

text \<open>\<open>render\<close>: the scene is stepped, updated and drawn, and the last line requests
  the next call of \<open>render\<close>.\<close>

definition render :: "physics \<Rightarrow> page \<Rightarrow> page" where
  "render phys pg =
     snd (requestAnimationFrame CbRender
            (pg\<lparr> soccerScene := renderScene phys (soccerScene pg) \<rparr>))"

text \<open>
  What a callback finds when it runs: whether the pose detector is loaded, the state
  of the video, the result of \<open>detectForVideo\<close> (its \<open>landmarks\<close>, which may be
  absent, or the error it throws), and the behaviour of the physics engine.
\<close>

record frame =
  poseDetector :: bool
  videoWidth :: nat
  videoHeight :: nat
  paused :: bool
  ended :: bool
  detectForVideo :: "error + keypoint list list option"
  physics :: physics

definition connections :: "(nat \<times> nat) list" where
  "connections =
     [(11, 12), (12, 24), (24, 23), (23, 11),
      (12, 14), (14, 16),
      (11, 13), (13, 15),
      (24, 26), (26, 28),
      (23, 25), (25, 27),
      (0, 1), (1, 2), (2, 3), (3, 7), (7, 8), (8, 9), (9, 10), (10, 0)]"

text \<open>
  \<open>drawResults\<close>. It returns early, before the scene is touched, when there is no
  pose or the first pose has no landmark. Drawing the skeleton reads \<open>x\<close> of both
  ends of every connection and throws at an end that is \<open>undefined\<close>. Every throw
  comes before the first change of the state, so that the error carries no state.
\<close>

definition drawResults :: "frame \<Rightarrow> keypoint list list option \<Rightarrow> page \<Rightarrow> error + page" where
  "drawResults env poseLandmarks pg =
     (case poseLandmarks of
        None \<Rightarrow> Inr pg
      | Some [] \<Rightarrow> Inr pg
      | Some (pose # others) \<Rightarrow>
          if pose = [] then Inr pg
          else if list_ex (\<lambda>c. at_index pose (fst c) = None \<or> at_index pose (snd c) = None)
                    connections
          then Inl TypeError
          else bind_err (calculateBodyBoundingBoxes poseLandmarks) (\<lambda>bodyBoxes.
                 let pg1 = (case bodyBoxes of
                              None \<Rightarrow> pg
                            | Some b \<Rightarrow> pg\<lparr> soccerScene :=
                                  updateColliderBoxes (Object_entries b) (soccerScene pg) \<rparr>)
                 in Inr (render (physics env) pg1)))"

text \<open>The request for the next call of \<open>detectPose\<close>, stored in \<open>animationId\<close>.\<close>

definition rearm :: "page \<Rightarrow> page" where
  "rearm pg =
     (let (i, pg1) = requestAnimationFrame CbDetectPose pg
      in pg1\<lparr> animationId := Some i \<rparr>)"

text \<open>
  \<open>detectPose\<close>. The \<open>await\<close> resumes before any other callback runs, so that the
  function is one transition. The \<open>try\<close> block is the last case: an error of the
  detector, of the mapper or of \<open>drawResults\<close> reaches the \<open>catch\<close>, which sets the
  status and cancels the request held in \<open>animationId\<close>. The message of the error
  is left out of the status text.
\<close>

definition detectPose :: "frame \<Rightarrow> page \<Rightarrow> page" where
  "detectPose env pg =
     (if \<not> poseDetector env \<or> videoWidth env = 0 then rearm pg
      else if paused env \<or> ended env
      then cancelAnimationFrame (animationId pg)
             (pg\<lparr> statusDiv := ''Video paused or ended.'' \<rparr>)
      else if videoWidth env = 0 \<or> videoHeight env = 0
      then rearm (pg\<lparr> statusDiv := ''Waiting for valid video dimensions...'' \<rparr>)
      else
        (case bind_err (detectForVideo env) (\<lambda>landmarks.
                 case landmarks of
                   None \<Rightarrow> Inr pg
                 | Some [] \<Rightarrow> Inr pg
                 | Some (pose # others) \<Rightarrow>
                     bind_err (calculateBodyBoundingBoxes landmarks) (\<lambda>bodyBoxes.
                       drawResults env landmarks pg)) of
           Inr pg1 \<Rightarrow> rearm pg1
         | Inl e \<Rightarrow> cancelAnimationFrame (animationId pg)
                      (pg\<lparr> statusDiv := ''Error during pose detection'' \<rparr>)))"

text \<open>
  A display frame runs the callbacks requested before it, in the order of their
  requests, except those cancelled meanwhile; the requests made while it runs wait
  for the next frame.
\<close>

definition runCallback :: "frame \<Rightarrow> callback \<Rightarrow> page \<Rightarrow> page" where
  "runCallback env cb pg =
     (case cb of
        CbDetectPose \<Rightarrow> detectPose env pg
      | CbRender \<Rightarrow> render (physics env) pg)"

fun runCallbacks :: "frame \<Rightarrow> (nat \<times> callback) list \<Rightarrow> page \<Rightarrow> page" where
  "runCallbacks env [] pg = pg"
| "runCallbacks env (r # rs) pg =
     runCallbacks env rs
       (if fst r \<in> set (cancelled pg) then pg else runCallback env (snd r) pg)"

definition displayFrame :: "frame \<Rightarrow> page \<Rightarrow> page" where
  "displayFrame env pg = runCallbacks env (rafQueue pg) (pg\<lparr> rafQueue := [], cancelled := [] \<rparr>)"

text \<open>The number of requested calls of \<open>render\<close> that wait for the next frame.\<close>

definition pendingRenders :: "page \<Rightarrow> nat" where
  "pendingRenders pg = length (filter (\<lambda>r. snd r = CbRender) (rafQueue pg))"

text \<open>
  The detector runs in a frame when it is loaded and the video plays with known
  dimensions. Such a frame has no detection when the landmarks are absent or empty,
  and a full detection when the first pose has the 33 landmarks of the layout.
\<close>

definition detectorRuns :: "frame \<Rightarrow> bool" where
  "detectorRuns env \<longleftrightarrow>
     poseDetector env \<and> 0 < videoWidth env \<and> 0 < videoHeight env \<and>
     \<not> paused env \<and> \<not> ended env"

definition noDetection :: "frame \<Rightarrow> bool" where
  "noDetection env \<longleftrightarrow>
     detectorRuns env \<and>
     (case detectForVideo env of
        Inr None \<Rightarrow> True
      | Inr (Some []) \<Rightarrow> True
      | _ \<Rightarrow> False)"

definition fullDetection :: "frame \<Rightarrow> bool" where
  "fullDetection env \<longleftrightarrow>
     detectorRuns env \<and>
     (case detectForVideo env of
        Inr (Some (pose # others)) \<Rightarrow> 33 \<le> length pose
      | _ \<Rightarrow> False)"

text \<open>
  The page after the start of the detection loop (the call of \<open>detectPose\<close> by the
  start button's timer) and \<open>n\<close> display frames, all in the same circumstances.
\<close>

definition afterFrames :: "frame \<Rightarrow> nat \<Rightarrow> page" where
  "afterFrames env n = ((displayFrame env) ^^ n) (detectPose env page_new)"

text \<open>Frames for the examples: a pose of 33 landmarks in the middle of the image,
  and no pose.\<close>

definition full_pose :: "keypoint list" where
  "full_pose = replicate 33 (finite_point (1 / 2, 1 / 2))"

definition frame_detected :: frame where
  "frame_detected = \<lparr> poseDetector = True, videoWidth = 640, videoHeight = 480,
                       paused = False, ended = False,
                       detectForVideo = Inr (Some [full_pose]),
                       physics = physics_still \<rparr>"

definition frame_empty :: frame where
  "frame_empty = frame_detected\<lparr> detectForVideo := Inr (Some []) \<rparr>"

section \<open>Properties of the Keypoint Mapper\<close>

subsection \<open>Minimum and maximum of finite numbers\<close>

lemma those_None_iff: "those xs = None \<longleftrightarrow> None \<in> set xs"
  by (induction xs) (auto split: option.splits)

lemma those_map_Some: "those (map Some xs) = Some xs"
  by (induction xs) auto

lemma min_from_Num: "min_from (Num l) (map Num rs) = Num (fold min rs l)"
  by (induction rs arbitrary: l) (auto simp: jlt_def min_def)

lemma max_from_Num: "max_from (Num l) (map Num rs) = Num (fold max rs l)"
  by (induction rs arbitrary: l) (auto simp: max_def)

lemma Math_min_Num: "rs \<noteq> [] \<Longrightarrow> Math_min (map Num rs) = Num (Min (set rs))"
  using Min.set_eq_fold[of "hd rs" "tl rs"]
  by (cases rs) (simp_all add: Math_min_def jlt_def min_from_Num)

lemma Math_max_Num: "rs \<noteq> [] \<Longrightarrow> Math_max (map Num rs) = Num (Max (set rs))"
  using Max.set_eq_fold[of "hd rs" "tl rs"]
  by (cases rs) (simp_all add: Math_max_def max_from_Num)

text \<open>\<open>Math.min()\<close> and \<open>Math.max()\<close> of no argument.\<close>

lemma Math_min_max_empty: "Math_min [] = PosInf \<and> Math_max [] = NegInf"
  by (simp add: Math_min_def Math_max_def)

subsection \<open>The box of a group\<close>

lemma ndcX_finite: "ndcX (finite_point c) = Num (spec_ndcX (fst c))"
  by (simp add: ndcX_def finite_point_def jsub_def spec_ndcX_def)

lemma ndcY_finite: "ndcY (finite_point c) = Num (spec_ndcY (snd c))"
  by (simp add: ndcY_def finite_point_def jsub_def spec_ndcY_def)

lemma map_ndcX_finite:
  "map ndcX (map finite_point cs) = map Num (map (\<lambda>c. spec_ndcX (fst c)) cs)"
  by (simp add: ndcX_finite)

lemma map_ndcY_finite:
  "map ndcY (map finite_point cs) = map Num (map (\<lambda>c. spec_ndcY (snd c)) cs)"
  by (simp add: ndcY_finite)

lemma createBox_Inl_iff:
  "createBox points col = Inl e \<longleftrightarrow> None \<in> set points \<and> e = TypeError"
  by (auto simp: createBox_def Let_def those_None_iff[symmetric] split: option.splits)

lemma createBox_error: "createBox points col = Inl e \<Longrightarrow> e = TypeError"
  by (simp add: createBox_Inl_iff)

lemma createBox_defined:
  "createBox (map Some ps) col =
     Inr \<lparr> minX = jsub (Math_min (map ndcX ps))
                     (jmul (jsub (Math_max (map ndcX ps)) (Math_min (map ndcX ps))) padding),
           maxX = jadd (Math_max (map ndcX ps))
                     (jmul (jsub (Math_max (map ndcX ps)) (Math_min (map ndcX ps))) padding),
           minY = jsub (Math_min (map ndcY ps))
                     (jmul (jsub (Math_max (map ndcY ps)) (Math_min (map ndcY ps))) padding),
           maxY = jadd (Math_max (map ndcY ps))
                     (jmul (jsub (Math_max (map ndcY ps)) (Math_min (map ndcY ps))) padding),
           color = col \<rparr>"
  by (simp add: createBox_def those_map_Some Let_def)

lemma createBox_finite:
  assumes "cs \<noteq> []"
  shows "createBox (map Some (map finite_point cs)) col =
     Inr \<lparr> minX = Num (Min (spec_ndcX ` fst ` set cs)
                        - (Max (spec_ndcX ` fst ` set cs) - Min (spec_ndcX ` fst ` set cs))
                          * (5 / 100)),
           maxX = Num (Max (spec_ndcX ` fst ` set cs)
                        + (Max (spec_ndcX ` fst ` set cs) - Min (spec_ndcX ` fst ` set cs))
                          * (5 / 100)),
           minY = Num (Min (spec_ndcY ` snd ` set cs)
                        - (Max (spec_ndcY ` snd ` set cs) - Min (spec_ndcY ` snd ` set cs))
                          * (5 / 100)),
           maxY = Num (Max (spec_ndcY ` snd ` set cs)
                        + (Max (spec_ndcY ` snd ` set cs) - Min (spec_ndcY ` snd ` set cs))
                          * (5 / 100)),
           color = col \<rparr>"
proof -
  have x: "map (\<lambda>c. spec_ndcX (fst c)) cs \<noteq> []" and y: "map (\<lambda>c. spec_ndcY (snd c)) cs \<noteq> []"
    using assms by simp_all
  have sx: "set (map (\<lambda>c. spec_ndcX (fst c)) cs) = spec_ndcX ` fst ` set cs"
    and sy: "set (map (\<lambda>c. spec_ndcY (snd c)) cs) = spec_ndcY ` snd ` set cs"
    by (simp_all add: image_image)
  show ?thesis
    unfolding createBox_defined map_ndcX_finite map_ndcY_finite
      Math_min_Num[OF x] Math_max_Num[OF x] Math_min_Num[OF y] Math_max_Num[OF y] sx sy
    by (simp add: jsub_def padding_def)
qed

text \<open>
  The width of the padded box is the width of the raw box times \<open>1.10\<close> for all
  numbers of the language, the infinite ones and \<open>NaN\<close> included: for an empty group
  both widths are \<open>-Infinity\<close>.
\<close>

lemma padded_extent:
  "jsub (jadd mx (jmul (jsub mx mn) padding)) (jsub mn (jmul (jsub mx mn) padding))
     = jmul (jsub mx mn) (Num (110 / 100))"
  by (cases mx; cases mn) (simp_all add: jsub_def padding_def signed_inf_def field_simps)

lemma padding_law_all_numbers:
  "\<exists>box. createBox (map Some ps) col = Inr box \<and>
     jsub (maxX box) (minX box)
       = jmul (jsub (Math_max (map ndcX ps)) (Math_min (map ndcX ps))) (Num (110 / 100)) \<and>
     jsub (maxY box) (minY box)
       = jmul (jsub (Math_max (map ndcY ps)) (Math_min (map ndcY ps))) (Num (110 / 100))"
  unfolding createBox_defined by (simp add: padded_extent)

text \<open>
  The padding on a group of keypoints with finite coordinates. The raw box has the
  width \<open>W = Max X - Min X\<close> over the converted x coordinates \<open>X\<close> and the height
  \<open>H = Max Y - Min Y\<close> over the converted y coordinates \<open>Y\<close>. The box that
  \<open>createBox\<close> returns reaches \<open>W * 0.05\<close> beyond the raw box on the left and on the
  right, and \<open>H * 0.05\<close> below and above.
\<close>

lemma createBox_padding_law:
  assumes "cs \<noteq> []"
  shows "\<exists>box. createBox (map Some (map finite_point cs)) col = Inr box \<and>
     minX box = Num (Min (spec_ndcX ` fst ` set cs)
                  - (Max (spec_ndcX ` fst ` set cs) - Min (spec_ndcX ` fst ` set cs)) * (5 / 100)) \<and>
     maxX box = Num (Max (spec_ndcX ` fst ` set cs)
                  + (Max (spec_ndcX ` fst ` set cs) - Min (spec_ndcX ` fst ` set cs)) * (5 / 100)) \<and>
     minY box = Num (Min (spec_ndcY ` snd ` set cs)
                  - (Max (spec_ndcY ` snd ` set cs) - Min (spec_ndcY ` snd ` set cs)) * (5 / 100)) \<and>
     maxY box = Num (Max (spec_ndcY ` snd ` set cs)
                  + (Max (spec_ndcY ` snd ` set cs) - Min (spec_ndcY ` snd ` set cs)) * (5 / 100)) \<and>
     jsub (maxX box) (minX box)
       = Num ((Max (spec_ndcX ` fst ` set cs) - Min (spec_ndcX ` fst ` set cs)) * (110 / 100)) \<and>
     jsub (maxY box) (minY box)
       = Num ((Max (spec_ndcY ` snd ` set cs) - Min (spec_ndcY ` snd ` set cs)) * (110 / 100))"
  unfolding createBox_finite[OF assms] by (simp add: jsub_def field_simps)

text \<open>
  The conversion and the raw box of a group of keypoints with finite coordinates:
  the minimum and the maximum that \<open>createBox\<close> takes on each axis are the least and
  the greatest converted coordinate of the group.
\<close>

lemma createBox_min_max:
  assumes "cs \<noteq> []"
  shows "map ndcX (map finite_point cs) = map (\<lambda>c. Num (fst c * 2 - 1)) cs \<and>
     map ndcY (map finite_point cs) = map (\<lambda>c. Num (- (snd c * 2 - 1))) cs \<and>
     Math_min (map ndcX (map finite_point cs)) = Num (Min ((\<lambda>c. fst c * 2 - 1) ` set cs)) \<and>
     Math_max (map ndcX (map finite_point cs)) = Num (Max ((\<lambda>c. fst c * 2 - 1) ` set cs)) \<and>
     Math_min (map ndcY (map finite_point cs)) = Num (Min ((\<lambda>c. - (snd c * 2 - 1)) ` set cs)) \<and>
     Math_max (map ndcY (map finite_point cs)) = Num (Max ((\<lambda>c. - (snd c * 2 - 1)) ` set cs)) \<and>
     createBox (map Some (map finite_point cs)) col =
       Inr \<lparr> minX = jsub (Math_min (map ndcX (map finite_point cs)))
                       (jmul (jsub (Math_max (map ndcX (map finite_point cs)))
                                   (Math_min (map ndcX (map finite_point cs)))) padding),
             maxX = jadd (Math_max (map ndcX (map finite_point cs)))
                       (jmul (jsub (Math_max (map ndcX (map finite_point cs)))
                                   (Math_min (map ndcX (map finite_point cs)))) padding),
             minY = jsub (Math_min (map ndcY (map finite_point cs)))
                       (jmul (jsub (Math_max (map ndcY (map finite_point cs)))
                                   (Math_min (map ndcY (map finite_point cs)))) padding),
             maxY = jadd (Math_max (map ndcY (map finite_point cs)))
                       (jmul (jsub (Math_max (map ndcY (map finite_point cs)))
                                   (Math_min (map ndcY (map finite_point cs)))) padding),
             color = col \<rparr>"
proof -
  have x: "map (\<lambda>c. spec_ndcX (fst c)) cs \<noteq> []" and y: "map (\<lambda>c. spec_ndcY (snd c)) cs \<noteq> []"
    using assms by simp_all
  have sx: "set (map (\<lambda>c. spec_ndcX (fst c)) cs) = (\<lambda>c. fst c * 2 - 1) ` set cs"
    and sy: "set (map (\<lambda>c. spec_ndcY (snd c)) cs) = (\<lambda>c. - (snd c * 2 - 1)) ` set cs"
    by (simp_all add: spec_ndcX_def spec_ndcY_def)
  have "map ndcX (map finite_point cs) = map (\<lambda>c. Num (fst c * 2 - 1)) cs"
    and "map ndcY (map finite_point cs) = map (\<lambda>c. Num (- (snd c * 2 - 1))) cs"
    by (simp_all add: ndcX_finite ndcY_finite spec_ndcX_def spec_ndcY_def)
  moreover have "Math_min (map ndcX (map finite_point cs)) = Num (Min ((\<lambda>c. fst c * 2 - 1) ` set cs))"
    and "Math_max (map ndcX (map finite_point cs)) = Num (Max ((\<lambda>c. fst c * 2 - 1) ` set cs))"
    unfolding map_ndcX_finite Math_min_Num[OF x] Math_max_Num[OF x] sx by simp_all
  moreover have "Math_min (map ndcY (map finite_point cs)) = Num (Min ((\<lambda>c. - (snd c * 2 - 1)) ` set cs))"
    and "Math_max (map ndcY (map finite_point cs)) = Num (Max ((\<lambda>c. - (snd c * 2 - 1)) ` set cs))"
    unfolding map_ndcY_finite Math_min_Num[OF y] Math_max_Num[OF y] sy by simp_all
  ultimately show ?thesis
    using createBox_defined[of "map finite_point cs" col] by simp
qed

subsection \<open>The six boxes\<close>

lemma mapper_total_on_full_pose:
  "33 \<le> length pose \<Longrightarrow>
   \<exists>b. calculateBodyBoundingBoxes (Some (pose # others)) = Inr (Some b)"
  by (auto simp: calculateBodyBoundingBoxes_def bind_err_def at_index_def slice0_def
      createBox_Inl_iff split: sum.splits)

text \<open>
  The mapper on a first pose of at least 33 keypoints with finite coordinates: each
  of the six boxes is the padded box of the keypoints that the mapper selects for
  the part, the head from the keypoints 0 to 10, the others from their lists of
  indices.
\<close>

lemma createBox_spec:
  "pts \<noteq> [] \<Longrightarrow> createBox (map Some (map finite_point pts)) col = Inr (spec_paddedBox pts col)"
  unfolding spec_paddedBox_def spec_rawMinX_def spec_rawMaxX_def
    spec_rawMinY_def spec_rawMaxY_def spec_width_def spec_height_def
  by (rule createBox_finite)

lemma at_index_finite:
  "i < length cs \<Longrightarrow> at_index (map finite_point cs) i = Some (finite_point (cs ! i))"
  by (simp add: at_index_def)

lemma take_11_group:
  "11 \<le> length cs \<Longrightarrow> take 11 cs = groupPoints cs [0, 1, 2, 3, 4, 5, 6, 7, 8, 9, 10]"
proof -
  assume l: "11 \<le> length cs"
  have "take 11 cs = take 11 (map ((!) cs) [0..<length cs])"
    by (simp add: map_nth)
  also have "\<dots> = map ((!) cs) (take 11 [0..<length cs])"
    by (simp add: take_map)
  also have "take 11 [0..<length cs] = [0..<11]"
    using l by simp
  also have "[0..<11] = [0, 1, 2, 3, 4, 5, 6, 7, 8, 9, 10 :: nat]"
    by (simp add: upt_rec)
  finally show ?thesis by (simp add: groupPoints_def)
qed

lemma slice0_finite:
  "11 \<le> length cs \<Longrightarrow>
   slice0 (map finite_point cs) 11
     = map Some (map finite_point (groupPoints cs [0, 1, 2, 3, 4, 5, 6, 7, 8, 9, 10]))"
  by (simp add: slice0_def take_map take_11_group)

lemma mapper_on_full_pose:
  assumes "33 \<le> length cs"
  shows "calculateBodyBoundingBoxes (Some (map finite_point cs # others)) =
     Inr (Some \<lparr> leftHand = spec_paddedBox (groupPoints cs [15, 17, 19, 21]) ''blue'',
                 rightHand = spec_paddedBox (groupPoints cs [16, 18, 20, 22]) ''green'',
                 leftLeg = spec_paddedBox (groupPoints cs [23, 25, 27, 29, 31]) ''purple'',
                 rightLeg = spec_paddedBox (groupPoints cs [24, 26, 28, 30, 32]) ''orange'',
                 head = spec_paddedBox (groupPoints cs [0, 1, 2, 3, 4, 5, 6, 7, 8, 9, 10]) ''yellow'',
                 torso = spec_paddedBox (groupPoints cs [11, 12, 23, 24]) ''red'' \<rparr>)"
proof -
  have hd: "createBox (slice0 (map finite_point cs) 11) ''yellow''
      = Inr (spec_paddedBox (groupPoints cs [0, 1, 2, 3, 4, 5, 6, 7, 8, 9, 10]) ''yellow'')"
  proof -
    have "11 \<le> length cs" using assms by simp
    then show ?thesis
      unfolding slice0_finite[OF \<open>11 \<le> length cs\<close>]
      by (intro createBox_spec) (simp add: groupPoints_def)
  qed
  have g: "\<And>idx col. idx \<noteq> [] \<Longrightarrow> list_all (\<lambda>i. i < 33) idx \<Longrightarrow>
      createBox (map (at_index (map finite_point cs)) idx) col
        = Inr (spec_paddedBox (groupPoints cs idx) col)"
  proof -
    fix idx :: "nat list" and col
    assume ne: "idx \<noteq> []" and lt: "list_all (\<lambda>i. i < 33) idx"
    have m: "map (at_index (map finite_point cs)) idx
        = map Some (map finite_point (groupPoints cs idx))"
      using lt assms by (auto simp: groupPoints_def list_all_iff at_index_finite)
    have "groupPoints cs idx \<noteq> []"
      using ne by (simp add: groupPoints_def)
    then show "createBox (map (at_index (map finite_point cs)) idx) col
        = Inr (spec_paddedBox (groupPoints cs idx) col)"
      unfolding m by (rule createBox_spec)
  qed
  show ?thesis
    unfolding calculateBodyBoundingBoxes_def
    using hd g[of "[15, 17, 19, 21]" "''blue''"] g[of "[16, 18, 20, 22]" "''green''"]
      g[of "[23, 25, 27, 29, 31]" "''purple''"] g[of "[24, 26, 28, 30, 32]" "''orange''"]
      g[of "[11, 12, 23, 24]" "''red''"]
    by (simp add: bind_err_def)
qed

lemma partBox_parts:
  "partBox b ''head'' = Some (head b)" "partBox b ''leftHand'' = Some (leftHand b)"
  "partBox b ''rightHand'' = Some (rightHand b)" "partBox b ''leftLeg'' = Some (leftLeg b)"
  "partBox b ''rightLeg'' = Some (rightLeg b)" "partBox b ''torso'' = Some (torso b)"
  by (simp_all add: partBox_def Object_entries_def)

lemma spec_paddedBox_min_max:
  "minX (spec_paddedBox g col) =
     jsub (Num (Min ((\<lambda>c. fst c * 2 - 1) ` set g))) (jmul (Num (spec_width g)) padding)"
  "maxX (spec_paddedBox g col) =
     jadd (Num (Max ((\<lambda>c. fst c * 2 - 1) ` set g))) (jmul (Num (spec_width g)) padding)"
  "minY (spec_paddedBox g col) =
     jsub (Num (Min ((\<lambda>c. - (snd c * 2 - 1)) ` set g))) (jmul (Num (spec_height g)) padding)"
  "maxY (spec_paddedBox g col) =
     jadd (Num (Max ((\<lambda>c. - (snd c * 2 - 1)) ` set g))) (jmul (Num (spec_height g)) padding)"
  by (simp_all add: spec_paddedBox_def spec_rawMinX_def spec_rawMaxX_def spec_rawMinY_def
      spec_rawMaxY_def image_image spec_ndcX_def spec_ndcY_def padding_def jsub_def)

text \<open>The example pose: the head group has the corners \<open>(\<plusminus>0.5, \<plusminus>0.5)\<close> of device
  space, a raw width of \<open>1.0\<close> and a raw height of \<open>1.0\<close>.\<close>

lemma corner_head_group:
  "groupPoints corner_pose [0, 1, 2, 3, 4, 5, 6, 7, 8, 9, 10] =
     [(1 / 4, 3 / 4), (3 / 4, 3 / 4), (3 / 4, 1 / 4), (1 / 4, 1 / 4),
      (1 / 2, 1 / 2), (1 / 2, 1 / 2), (1 / 2, 1 / 2), (1 / 2, 1 / 2),
      (1 / 2, 1 / 2), (1 / 2, 1 / 2), (1 / 2, 1 / 2)]"
  by (simp add: groupPoints_def corner_pose_def nth_append)

lemma corner_head_raw:
  "spec_rawMinX (groupPoints corner_pose [0, 1, 2, 3, 4, 5, 6, 7, 8, 9, 10]) = - 1 / 2"
  "spec_rawMaxX (groupPoints corner_pose [0, 1, 2, 3, 4, 5, 6, 7, 8, 9, 10]) = 1 / 2"
  "spec_rawMinY (groupPoints corner_pose [0, 1, 2, 3, 4, 5, 6, 7, 8, 9, 10]) = - 1 / 2"
  "spec_rawMaxY (groupPoints corner_pose [0, 1, 2, 3, 4, 5, 6, 7, 8, 9, 10]) = 1 / 2"
  unfolding corner_head_group
  by (simp_all add: spec_rawMinX_def spec_rawMaxX_def spec_rawMinY_def spec_rawMaxY_def
      spec_ndcX_def spec_ndcY_def)

lemma corner_pose_length: "33 \<le> length corner_pose"
  by (simp add: corner_pose_def)



text \<open>
  Claim C7, the conversion and the raw box. Let the first pose have at least 33
  keypoints, all with finite coordinates. The mapper converts a keypoint \<open>(x, y)\<close>
  of normalized image space to \<open>ndcX = x*2-1\<close> and \<open>ndcY = -(y*2-1)\<close>. For every
  body part, the box that the mapper returns for the part is made from the least and
  the greatest converted coordinate of the part's group of keypoints on each axis:
  they are taken first, and the padding, the raw width or height times \<open>padding\<close>, is
  subtracted from the least and added to the greatest afterwards.
\<close>

theorem mapper_boxes_min_max:
  assumes "33 \<le> length cs"
  shows "\<exists>b. calculateBodyBoundingBoxes (Some (map finite_point cs # others)) = Inr (Some b) \<and>
     (\<forall>(part, idx) \<in> set partIndices. \<exists>box. partBox b part = Some box \<and>
        map ndcX (map finite_point (groupPoints cs idx))
          = map (\<lambda>c. Num (fst c * 2 - 1)) (groupPoints cs idx) \<and>
        map ndcY (map finite_point (groupPoints cs idx))
          = map (\<lambda>c. Num (- (snd c * 2 - 1))) (groupPoints cs idx) \<and>
        minX box = jsub (Num (Min ((\<lambda>c. fst c * 2 - 1) ` set (groupPoints cs idx))))
                        (jmul (Num (spec_width (groupPoints cs idx))) padding) \<and>
        maxX box = jadd (Num (Max ((\<lambda>c. fst c * 2 - 1) ` set (groupPoints cs idx))))
                        (jmul (Num (spec_width (groupPoints cs idx))) padding) \<and>
        minY box = jsub (Num (Min ((\<lambda>c. - (snd c * 2 - 1)) ` set (groupPoints cs idx))))
                        (jmul (Num (spec_height (groupPoints cs idx))) padding) \<and>
        maxY box = jadd (Num (Max ((\<lambda>c. - (snd c * 2 - 1)) ` set (groupPoints cs idx))))
                        (jmul (Num (spec_height (groupPoints cs idx))) padding))"
  unfolding mapper_on_full_pose[OF assms]
  by (simp add: partIndices_def partBox_parts spec_paddedBox_min_max ndcX_finite ndcY_finite
      spec_ndcX_def spec_ndcY_def)

theorem mapper_boxes_min_max_witness:
  "33 \<le> length corner_pose \<and>
   (\<exists>b. calculateBodyBoundingBoxes (Some [map finite_point corner_pose]) = Inr (Some b) \<and>
      minX (head b) = jsub (Num (- 1 / 2)) (jmul (Num 1) padding) \<and>
      maxX (head b) = jadd (Num (1 / 2)) (jmul (Num 1) padding) \<and>
      minY (head b) = jsub (Num (- 1 / 2)) (jmul (Num 1) padding) \<and>
      maxY (head b) = jadd (Num (1 / 2)) (jmul (Num 1) padding))"
proof -
  from mapper_boxes_min_max[OF corner_pose_length, of "[]"] obtain b where
    b: "calculateBodyBoundingBoxes (Some [map finite_point corner_pose]) = Inr (Some b)"
    and all: "\<forall>(part, idx) \<in> set partIndices. \<exists>box. partBox b part = Some box \<and>
        map ndcX (map finite_point (groupPoints corner_pose idx))
          = map (\<lambda>c. Num (fst c * 2 - 1)) (groupPoints corner_pose idx) \<and>
        map ndcY (map finite_point (groupPoints corner_pose idx))
          = map (\<lambda>c. Num (- (snd c * 2 - 1))) (groupPoints corner_pose idx) \<and>
        minX box = jsub (Num (Min ((\<lambda>c. fst c * 2 - 1) ` set (groupPoints corner_pose idx))))
                        (jmul (Num (spec_width (groupPoints corner_pose idx))) padding) \<and>
        maxX box = jadd (Num (Max ((\<lambda>c. fst c * 2 - 1) ` set (groupPoints corner_pose idx))))
                        (jmul (Num (spec_width (groupPoints corner_pose idx))) padding) \<and>
        minY box = jsub (Num (Min ((\<lambda>c. - (snd c * 2 - 1)) ` set (groupPoints corner_pose idx))))
                        (jmul (Num (spec_height (groupPoints corner_pose idx))) padding) \<and>
        maxY box = jadd (Num (Max ((\<lambda>c. - (snd c * 2 - 1)) ` set (groupPoints corner_pose idx))))
                        (jmul (Num (spec_height (groupPoints corner_pose idx))) padding)"
    by blast
  let ?G = "groupPoints corner_pose [0, 1, 2, 3, 4, 5, 6, 7, 8, 9, 10]"
  have hd: "(''head'', [0, 1, 2, 3, 4, 5, 6, 7, 8, 9, 10]) \<in> set partIndices"
    by (simp add: partIndices_def)
  from bspec[OF all hd] obtain box where box: "partBox b ''head'' = Some box"
    and mx: "minX box = jsub (Num (Min ((\<lambda>c. fst c * 2 - 1) ` set ?G)))
                        (jmul (Num (spec_width ?G)) padding)"
      "maxX box = jadd (Num (Max ((\<lambda>c. fst c * 2 - 1) ` set ?G)))
                        (jmul (Num (spec_width ?G)) padding)"
      "minY box = jsub (Num (Min ((\<lambda>c. - (snd c * 2 - 1)) ` set ?G)))
                        (jmul (Num (spec_height ?G)) padding)"
      "maxY box = jadd (Num (Max ((\<lambda>c. - (snd c * 2 - 1)) ` set ?G)))
                        (jmul (Num (spec_height ?G)) padding)"
    unfolding prod.case by blast
  have box_eq: "box = head b"
    using box by (simp add: partBox_parts)
  have w: "spec_width ?G = 1" "spec_height ?G = 1"
    unfolding spec_width_def spec_height_def corner_head_raw by simp_all
  have m: "Min ((\<lambda>c. fst c * 2 - 1) ` set ?G) = - 1 / 2"
    "Max ((\<lambda>c. fst c * 2 - 1) ` set ?G) = 1 / 2"
    "Min ((\<lambda>c. - (snd c * 2 - 1)) ` set ?G) = - 1 / 2"
    "Max ((\<lambda>c. - (snd c * 2 - 1)) ` set ?G) = 1 / 2"
    unfolding corner_head_group by simp_all
  from mx have
    "minX (head b) = jsub (Num (- 1 / 2)) (jmul (Num 1) padding)"
    "maxX (head b) = jadd (Num (1 / 2)) (jmul (Num 1) padding)"
    "minY (head b) = jsub (Num (- 1 / 2)) (jmul (Num 1) padding)"
    "maxY (head b) = jadd (Num (1 / 2)) (jmul (Num 1) padding)"
    unfolding box_eq w m by blast+
  with b corner_pose_length show ?thesis by blast
qed



text \<open>
  Claim C10. The mapper reads the first pose at fixed positions up to index 32 and
  has no guard for a missing keypoint: when the list of detections is not empty and
  its first pose has fewer than 33 keypoints, the mapper throws a TypeError; it
  returns neither \<open>null\<close> nor six boxes.
\<close>

theorem mapper_short_pose_throws:
  assumes "length pose < 33"
  shows "calculateBodyBoundingBoxes (Some (pose # others)) = Inl TypeError"
proof -
  from assms have "at_index pose 32 = None"
    by (simp add: at_index_def)
  then have rightLeg_throws:
    "createBox [at_index pose 24, at_index pose 26, at_index pose 28,
                at_index pose 30, at_index pose 32] ''orange'' = Inl TypeError"
    by (simp add: createBox_Inl_iff)
  show ?thesis
    unfolding calculateBodyBoundingBoxes_def
    by (auto simp: bind_err_def rightLeg_throws dest: createBox_error split: sum.splits)
qed

theorem mapper_short_pose_throws_witness:
  "length (replicate 32 (finite_point (1 / 2, 1 / 2))) < 33 \<and>
   calculateBodyBoundingBoxes (Some [replicate 32 (finite_point (1 / 2, 1 / 2))]) = Inl TypeError"
  using mapper_short_pose_throws[of "replicate 32 (finite_point (1 / 2, 1 / 2))" "[]"]
  by simp

section \<open>Properties of the projectiles\<close>

subsection \<open>What the removals change\<close>

lemma removeBall_fields [simp]:
  "objects (removeBall b s) = objects s"
  "nextObject (removeBall b s) = nextObject s"
  "balls (removeBall b s) = balls s"
  "colliderBoxes (removeBall b s) = colliderBoxes s"
  "rendered (removeBall b s) = rendered s"
  "children (removeBall b s) = remove1 (mesh b) (children s)"
  "rapierWorld (removeBall b s) = removeRigidBody (rigidBody b) (rapierWorld s)"
  by (simp_all add: removeBall_def scene_remove_def)

lemma tooFar_cong: "objects s' = objects s \<Longrightarrow> tooFar s' = tooFar s"
  by (rule ext) (simp add: tooFar_def)

lemma filterBalls_kept: "fst (filterBalls bs s) = filter (\<lambda>b. \<not> tooFar s b) bs"
proof (induction bs arbitrary: s)
  case Nil
  show ?case by simp
next
  case (Cons b bs)
  have "tooFar (removeBall b s) = tooFar s" by (rule tooFar_cong) simp
  with Cons show ?case by (simp add: split_beta)
qed

lemma filterBalls_fields [simp]:
  "objects (snd (filterBalls bs s)) = objects s"
  "nextObject (snd (filterBalls bs s)) = nextObject s"
  "balls (snd (filterBalls bs s)) = balls s"
  "colliderBoxes (snd (filterBalls bs s)) = colliderBoxes s"
  "rendered (snd (filterBalls bs s)) = rendered s"
  by (induction bs arbitrary: s; simp add: split_beta)+

lemma evictOldest_balls:
  "balls (evictOldest s) = drop (length (balls s) - maxBalls) (balls s)"
proof (induction s rule: evictOldest.induct)
  case (1 s)
  show ?case
  proof (cases "maxBalls < length (balls s)")
    case False
    then show ?thesis by (subst evictOldest.simps) simp
  next
    case True
    then obtain b rest where br: "balls s = b # rest" by (cases "balls s") auto
    from True br have "balls (evictOldest s) = balls (evictOldest (removeBall b (s\<lparr>balls := rest\<rparr>)))"
      by (subst evictOldest.simps) simp
    also have "\<dots> = drop (length rest - maxBalls) rest"
      using "1.IH"[OF True br] by simp
    also have "\<dots> = drop (length (balls s) - maxBalls) (balls s)"
      using True br by (simp add: Suc_diff_le)
    finally show ?thesis .
  qed
qed

lemma evictOldest_objects [simp]: "objects (evictOldest s) = objects s"
  by (induction s rule: evictOldest.induct) (subst evictOldest.simps, auto split: list.splits)

lemma evictOldest_nextObject [simp]: "nextObject (evictOldest s) = nextObject s"
  by (induction s rule: evictOldest.induct) (subst evictOldest.simps, auto split: list.splits)

lemma evictOldest_colliderBoxes [simp]: "colliderBoxes (evictOldest s) = colliderBoxes s"
  by (induction s rule: evictOldest.induct) (subst evictOldest.simps, auto split: list.splits)

lemma evictOldest_rendered [simp]: "rendered (evictOldest s) = rendered s"
  by (induction s rule: evictOldest.induct) (subst evictOldest.simps, auto split: list.splits)

lemma cleanupBalls_balls:
  "balls (cleanupBalls s) =
     drop (length (filter (\<lambda>b. \<not> tooFar s b) (balls s)) - maxBalls)
          (filter (\<lambda>b. \<not> tooFar s b) (balls s))"
  using filterBalls_kept[of "balls s" s]
  by (simp add: cleanupBalls_def split_beta evictOldest_balls)

lemma cleanupBalls_fields [simp]:
  "objects (cleanupBalls s) = objects s"
  "nextObject (cleanupBalls s) = nextObject s"
  "colliderBoxes (cleanupBalls s) = colliderBoxes s"
  "rendered (cleanupBalls s) = rendered s"
  by (simp_all add: cleanupBalls_def split_beta)

subsection \<open>Well-formed scenes\<close>

lemma wellFormed_removeBall:
  assumes "wellFormed s" and "\<forall>part. colliderBoxes s part \<noteq> Some (mesh b)"
  shows "wellFormed (removeBall b s)"
  using assms unfolding wellFormed_def
  by (auto simp: list_all_iff dest: notin_set_remove1)

lemma wellFormed_fewer_balls:
  assumes "wellFormed s" and "set bs \<subseteq> set (balls s)" and "distinct (map mesh bs)"
  shows "wellFormed (s\<lparr> balls := bs \<rparr>)"
  using assms unfolding wellFormed_def
  by (simp add: list_all_iff subset_iff image_iff)

lemma ball_is_no_proxy:
  "wellFormed s \<Longrightarrow> b \<in> set (balls s) \<Longrightarrow> \<forall>part. colliderBoxes s part \<noteq> Some (mesh b)"
  unfolding wellFormed_def by blast

lemma wellFormed_filterBalls:
  "wellFormed s \<Longrightarrow> set bs \<subseteq> set (balls s) \<Longrightarrow> wellFormed (snd (filterBalls bs s))"
proof (induction bs arbitrary: s)
  case Nil
  then show ?case by simp
next
  case (Cons b bs)
  from Cons.prems have "wellFormed (removeBall b s)"
    by (simp add: wellFormed_removeBall ball_is_no_proxy)
  with Cons show ?case by (simp add: split_beta)
qed

lemma wellFormed_evictOldest: "wellFormed s \<Longrightarrow> wellFormed (evictOldest s)"
proof (induction s rule: evictOldest.induct)
  case (1 s)
  show ?case
  proof (cases "maxBalls < length (balls s)")
    case False
    with "1.prems" show ?thesis by (subst evictOldest.simps) simp
  next
    case True
    then obtain b rest where br: "balls s = b # rest" by (cases "balls s") auto
    from "1.prems" br have d: "distinct (map mesh rest)" "set rest \<subseteq> set (balls s)"
      by (auto simp: wellFormed_def)
    have "wellFormed (s\<lparr> balls := rest \<rparr>)"
      using wellFormed_fewer_balls[OF "1.prems" d(2) d(1)] .
    moreover have "\<forall>part. colliderBoxes (s\<lparr> balls := rest \<rparr>) part \<noteq> Some (mesh b)"
      using ball_is_no_proxy[OF "1.prems", of b] br by simp
    ultimately have "wellFormed (removeBall b (s\<lparr> balls := rest \<rparr>))"
      by (rule wellFormed_removeBall)
    from "1.IH"[OF True br this] True br show ?thesis
      by (subst evictOldest.simps) simp
  qed
qed

lemma wellFormed_cleanupBalls: "wellFormed s \<Longrightarrow> wellFormed (cleanupBalls s)"
proof -
  assume wf: "wellFormed s"
  have 1: "wellFormed (snd (filterBalls (balls s) s))"
    using wf by (simp add: wellFormed_filterBalls)
  have "wellFormed ((snd (filterBalls (balls s) s))\<lparr> balls := fst (filterBalls (balls s) s) \<rparr>)"
    using wf by (intro wellFormed_fewer_balls[OF 1])
      (auto simp: filterBalls_kept wellFormed_def distinct_map_filter)
  then show ?thesis
    by (simp add: cleanupBalls_def split_beta wellFormed_evictOldest)
qed


subsection \<open>What the other methods change\<close>

lemma World_ops_nextHandle [simp]:
  "nextHandle (setTranslation h v w) = nextHandle w"
  "nextHandle (setLinvel h v w) = nextHandle w"
  "nextHandle (setLinearDamping h d w) = nextHandle w"
  "nextHandle (setAngularDamping h d w) = nextHandle w"
  "nextHandle (createCollider c w) = nextHandle w"
  "nextHandle (removeRigidBody h w) = nextHandle w"
  "nextHandle (World_step phys w) = nextHandle w"
  "nextHandle (snd (createRigidBody w)) = Suc (nextHandle w)"
  "fst (createRigidBody w) = nextHandle w"
  by (simp_all add: setTranslation_def setLinvel_def setLinearDamping_def setAngularDamping_def
      createCollider_def removeRigidBody_def World_step_def createRigidBody_def Let_def)

lemma World_ops_steps [simp]:
  "steps (setTranslation h v w) = steps w"
  "steps (setLinvel h v w) = steps w"
  "steps (setLinearDamping h d w) = steps w"
  "steps (setAngularDamping h d w) = steps w"
  "steps (createCollider c w) = steps w"
  "steps (removeRigidBody h w) = steps w"
  "steps (World_step phys w) = Suc (steps w)"
  "steps (snd (createRigidBody w)) = steps w"
  by (simp_all add: setTranslation_def setLinvel_def setLinearDamping_def setAngularDamping_def
      createCollider_def removeRigidBody_def World_step_def createRigidBody_def Let_def)

lemma filterBalls_world [simp]:
  "nextHandle (rapierWorld (snd (filterBalls bs s))) = nextHandle (rapierWorld s)"
  "steps (rapierWorld (snd (filterBalls bs s))) = steps (rapierWorld s)"
  by (induction bs arbitrary: s; simp add: split_beta)+

lemma evictOldest_nextHandle [simp]:
  "nextHandle (rapierWorld (evictOldest s)) = nextHandle (rapierWorld s)"
  by (induction s rule: evictOldest.induct) (subst evictOldest.simps, auto split: list.splits)

lemma evictOldest_steps [simp]:
  "steps (rapierWorld (evictOldest s)) = steps (rapierWorld s)"
  by (induction s rule: evictOldest.induct) (subst evictOldest.simps, auto split: list.splits)

lemma cleanupBalls_world [simp]:
  "nextHandle (rapierWorld (cleanupBalls s)) = nextHandle (rapierWorld s)"
  "steps (rapierWorld (cleanupBalls s)) = steps (rapierWorld s)"
  by (simp_all add: cleanupBalls_def split_beta)

lemma addBall_fields [simp]:
  "objects (addBall s) = (objects s)(nextObject s :=
        (new_Mesh (SphereGeometry (Num (1 / 2))) (Some 0xff0000))
          \<lparr> position := vec 0 2 4, castShadow := True \<rparr>)"
  "nextObject (addBall s) = Suc (nextObject s)"
  "children (addBall s) = children s @ [nextObject s]"
  "colliderBoxes (addBall s) = colliderBoxes s"
  "balls (addBall s) = balls s @ [newBall s]"
  "rendered (addBall s) = rendered s"
  "nextHandle (rapierWorld (addBall s)) = Suc (nextHandle (rapierWorld s))"
  "steps (rapierWorld (addBall s)) = steps (rapierWorld s)"
  by (simp_all add: addBall_def scene_add_def Let_def split_beta newBall_def)

lemma spawnBall_fields [simp]:
  "objects (spawnBall s) = objects (addBall s)"
  "nextObject (spawnBall s) = Suc (nextObject s)"
  "colliderBoxes (spawnBall s) = colliderBoxes s"
  "rendered (spawnBall s) = rendered s"
  "nextHandle (rapierWorld (spawnBall s)) = Suc (nextHandle (rapierWorld s))"
  "steps (rapierWorld (spawnBall s)) = steps (rapierWorld s)"
  by (simp_all add: spawnBall_def)

lemma fold_syncBall_fields [simp]:
  "balls (fold syncBall bs s) = balls s"
  "children (fold syncBall bs s) = children s"
  "nextObject (fold syncBall bs s) = nextObject s"
  "colliderBoxes (fold syncBall bs s) = colliderBoxes s"
  "rapierWorld (fold syncBall bs s) = rapierWorld s"
  "rendered (fold syncBall bs s) = rendered s"
  by (induction bs arbitrary: s; simp add: syncBall_def Let_def)+

lemma renderScene_fields [simp]:
  "balls (renderScene phys s) = balls s"
  "children (renderScene phys s) = children s"
  "nextObject (renderScene phys s) = nextObject s"
  "colliderBoxes (renderScene phys s) = colliderBoxes s"
  "rapierWorld (renderScene phys s) = World_step phys (rapierWorld s)"
  "rendered (renderScene phys s) = Suc (rendered s)"
  by (simp_all add: renderScene_def Let_def)

lemma proxyFor_fields [simp]:
  "balls (snd (proxyFor part s)) = balls s"
  "rapierWorld (snd (proxyFor part s)) = rapierWorld s"
  "rendered (snd (proxyFor part s)) = rendered s"
  by (simp_all add: proxyFor_def scene_add_def Let_def split: option.splits)

lemma updateColliderBox_fields [simp]:
  "balls (updateColliderBox e s) = balls s"
  "rapierWorld (updateColliderBox e s) = rapierWorld s"
  "rendered (updateColliderBox e s) = rendered s"
  by (simp_all add: updateColliderBox_def Let_def split_beta)

lemma updateColliderBoxes_fields [simp]:
  "balls (updateColliderBoxes bs s) = balls s"
  "rapierWorld (updateColliderBoxes bs s) = rapierWorld s"
  "rendered (updateColliderBoxes bs s) = rendered s"
  unfolding updateColliderBoxes_def by (induction bs arbitrary: s; simp)+

lemma wellFormed_new: "wellFormed SoccerScene_new"
  by (simp add: wellFormed_def SoccerScene_new_def scene_add_def Let_def)

lemma wellFormed_addBall: "wellFormed s \<Longrightarrow> wellFormed (addBall s)"
  unfolding wellFormed_def
  by (auto simp: list_all_iff newBall_def less_Suc_eq)

lemma wellFormed_spawnBall: "wellFormed s \<Longrightarrow> wellFormed (spawnBall s)"
  by (simp add: spawnBall_def wellFormed_addBall wellFormed_cleanupBalls)

lemma wellFormed_renderScene: "wellFormed s \<Longrightarrow> wellFormed (renderScene phys s)"
  by (simp add: wellFormed_def)

lemma wellFormed_proxyFor:
  "wellFormed s \<Longrightarrow> wellFormed (snd (proxyFor part s))"
  unfolding wellFormed_def proxyFor_def
  by (auto simp: list_all_iff scene_add_def Let_def less_Suc_eq split: option.splits)

lemma wellFormed_objects_update:
  "wellFormed s \<Longrightarrow> wellFormed (s\<lparr> objects := f \<rparr>)"
  by (simp add: wellFormed_def)

lemma wellFormed_updateColliderBox:
  "wellFormed s \<Longrightarrow> wellFormed (updateColliderBox e s)"
  by (simp add: updateColliderBox_def Let_def split_beta wellFormed_objects_update
      wellFormed_proxyFor)

lemma wellFormed_updateColliderBoxes:
  "wellFormed s \<Longrightarrow> wellFormed (updateColliderBoxes bs s)"
  unfolding updateColliderBoxes_def
  by (induction bs arbitrary: s) (simp_all add: wellFormed_updateColliderBox)

lemma wellFormed_exec: "wellFormed s \<Longrightarrow> wellFormed (exec c s)"
  by (cases c) (simp_all add: wellFormed_spawnBall wellFormed_renderScene
      wellFormed_updateColliderBoxes)

lemma wellFormed_run: "wellFormed s \<Longrightarrow> wellFormed (run cs s)"
  by (induction cs arbitrary: s) (simp_all add: wellFormed_exec)

subsection \<open>The cap\<close>

lemma sqrt_gt_10: "0 \<le> a \<Longrightarrow> (10 < sqrt a) = (100 < a)"
proof -
  assume a: "0 \<le> a"
  have "(sqrt 100 < sqrt a) = (100 < a)" by (rule real_sqrt_less_iff)
  moreover have "sqrt 100 = 10" using real_sqrt_abs[of 10] by simp
  ultimately show ?thesis by simp
qed

lemma spawn_point_near: "\<not> jgt (distanceFromOrigin (vec 0 2 4)) removalDistance"
  by (simp add: distanceFromOrigin_def vec_def removalDistance_def sqrt_gt_10)

text \<open>The test of the filter without the square root, for evaluation.\<close>

lemma tooFar_code [code]:
  "tooFar s b =
     (case jadd (jadd (jpow2 (vx (position (objects s (mesh b)))))
                      (jpow2 (vy (position (objects s (mesh b))))))
                (jpow2 (vz (position (objects s (mesh b))))) of
        Num a \<Rightarrow> 100 < a
      | PosInf \<Rightarrow> True
      | NegInf \<Rightarrow> False
      | NaN \<Rightarrow> False)"
  by (simp add: tooFar_def distanceFromOrigin_def removalDistance_def sqrt_gt_10
      split: jsnum.splits)

lemma tooFar_addBall_new: "\<not> tooFar (addBall s) (newBall s)"
  using spawn_point_near by (simp add: tooFar_def newBall_def)

lemma tooFar_addBall_old:
  "wellFormed s \<Longrightarrow> b \<in> set (balls s) \<Longrightarrow> tooFar (addBall s) b = tooFar s b"
  by (auto simp: tooFar_def wellFormed_def list_all_iff)

lemma tooFar_spawnBall: "tooFar (spawnBall s) = tooFar (addBall s)"
  by (rule tooFar_cong) simp

lemma spawnBall_balls:
  assumes "wellFormed s"
  shows "balls (spawnBall s) =
     drop (Suc (length (filter (\<lambda>b. \<not> tooFar s b) (balls s))) - maxBalls)
          (filter (\<lambda>b. \<not> tooFar s b) (balls s) @ [newBall s])"
proof -
  have "filter (\<lambda>b. \<not> tooFar (addBall s) b) (balls s) = filter (\<lambda>b. \<not> tooFar s b) (balls s)"
    by (rule filter_cong) (simp_all add: tooFar_addBall_old[OF assms])
  then show ?thesis
    by (simp add: spawnBall_def cleanupBalls_balls tooFar_addBall_new)
qed

lemma spawnBall_balls_near:
  assumes "wellFormed s" and "allNear s"
  shows "balls (spawnBall s) = drop (Suc (length (balls s)) - maxBalls) (balls s @ [newBall s])"
proof -
  from assms(2) have "filter (\<lambda>b. \<not> tooFar s b) (balls s) = balls s"
    by (simp add: allNear_def list_all_iff)
  with spawnBall_balls[OF assms(1)] show ?thesis by simp
qed

lemma keep_last:
  "drop (length (drop (length xs - n) xs @ ys) - n) (drop (length xs - n) xs @ ys)
     = drop (length (xs @ ys) - n) (xs @ ys)"
  by (cases "length xs \<le> n") (simp_all add: add.commute)

lemma run_balls:
  assumes "wellFormed s" and "neverTooFar cs s" and "length (balls s) \<le> maxBalls"
  shows "balls (run cs s) =
     drop (length (balls s @ spawned cs s) - maxBalls) (balls s @ spawned cs s)"
  using assms
proof (induction cs arbitrary: s)
  case Nil
  then show ?case by simp
next
  case (Cons c cs)
  from Cons.prems have near: "allNear s" and later: "neverTooFar cs (exec c s)"
    by simp_all
  have wf: "wellFormed (exec c s)"
    using Cons.prems(1) by (rule wellFormed_exec)
  show ?case
  proof (cases c)
    case SpawnBall
    have b: "balls (spawnBall s) = drop (length (balls s @ [newBall s]) - maxBalls) (balls s @ [newBall s])"
      using spawnBall_balls_near[OF Cons.prems(1) near] by simp
    then have "length (balls (spawnBall s)) \<le> maxBalls"
      using Cons.prems(3) by simp
    with Cons.IH[of "spawnBall s"] wf later SpawnBall
    have "balls (run cs (spawnBall s)) =
      drop (length (balls (spawnBall s) @ spawned cs (spawnBall s)) - maxBalls)
           (balls (spawnBall s) @ spawned cs (spawnBall s))"
      by simp
    also have "\<dots> = drop (length ((balls s @ [newBall s]) @ spawned cs (spawnBall s)) - maxBalls)
                        ((balls s @ [newBall s]) @ spawned cs (spawnBall s))"
      unfolding b by (rule keep_last)
    finally show ?thesis using SpawnBall by simp
  next
    case (Render phys)
    with Cons.IH[of "renderScene phys s"] wf later Cons.prems(3) show ?thesis by simp
  next
    case (UpdateColliderBoxes bs)
    with Cons.IH[of "updateColliderBoxes bs s"] wf later Cons.prems(3) show ?thesis by simp
  qed
qed

lemma length_spawned: "length (spawned cs s) = count_list cs SpawnBall"
  by (induction cs s rule: spawned.induct) simp_all

lemma allNear_spawnBall: "wellFormed s \<Longrightarrow> allNear s \<Longrightarrow> allNear (spawnBall s)"
  unfolding allNear_def list_all_iff tooFar_spawnBall
  by (auto simp: spawnBall_balls_near[unfolded allNear_def list_all_iff] tooFar_addBall_new
        tooFar_addBall_old dest!: in_set_dropD)

lemma neverTooFar_spawns:
  "wellFormed s \<Longrightarrow> allNear s \<Longrightarrow> neverTooFar (replicate n SpawnBall) s"
  by (induction n arbitrary: s) (simp_all add: allNear_spawnBall wellFormed_spawnBall)

lemma spawned_replicate:
  "spawned (replicate n SpawnBall) s =
     map (\<lambda>i. \<lparr> mesh = nextObject s + i, rigidBody = nextHandle (rapierWorld s) + i \<rparr>) [0..<n]"
proof (induction n arbitrary: s)
  case 0
  show ?case by simp
next
  case (Suc n)
  have "[0..<Suc n] = 0 # map Suc [0..<n]"
    by (simp add: upt_conv_Cons map_Suc_upt del: upt_Suc)
  then show ?case
    by (simp add: Suc newBall_def comp_def del: upt_Suc)
qed

lemma new_fields:
  "nextObject SoccerScene_new = 8" "nextHandle (rapierWorld SoccerScene_new) = 0"
  "balls SoccerScene_new = []" "allNear SoccerScene_new"
  by (simp_all add: SoccerScene_new_def scene_add_def Let_def World_new_def createCollider_def
      allNear_def)

lemma count_list_replicate: "count_list (replicate n x) x = n"
  by (induction n) simp_all

text \<open>
  Claim C1, as the code has it. In a run of the scene from its construction in which
  no live ball is ever beyond the removal distance and which has \<open>N\<close> spawn ticks,
  \<open>N\<close> greater than the cap of 10, the live balls after the run are 10, and they
  are the 10 balls spawned last, in the order of their spawning: the \<open>N - 10\<close> balls
  spawned first have been evicted. In every state, \<open>cleanupBalls\<close> first removes the
  balls beyond the removal distance and then, from those that remain, the oldest
  ones beyond the cap, in the order of insertion.
\<close>

theorem projectile_cap:
  assumes "neverTooFar cs SoccerScene_new" and "maxBalls < count_list cs SpawnBall"
  shows "length (spawned cs SoccerScene_new) = count_list cs SpawnBall \<and>
     length (balls (run cs SoccerScene_new)) = maxBalls \<and>
     balls (run cs SoccerScene_new)
       = drop (count_list cs SpawnBall - maxBalls) (spawned cs SoccerScene_new) \<and>
     distinct (balls (run cs SoccerScene_new)) \<and>
     (\<forall>s. balls (cleanupBalls s) =
        drop (length (filter (\<lambda>b. \<not> tooFar s b) (balls s)) - maxBalls)
             (filter (\<lambda>b. \<not> tooFar s b) (balls s)))"
proof -
  have b: "balls (run cs SoccerScene_new)
       = drop (count_list cs SpawnBall - maxBalls) (spawned cs SoccerScene_new)"
    using run_balls[OF wellFormed_new assms(1)] by (simp add: new_fields length_spawned)
  have "distinct (map mesh (balls (run cs SoccerScene_new)))"
    using wellFormed_run[OF wellFormed_new, of cs] by (simp add: wellFormed_def)
  then have "distinct (balls (run cs SoccerScene_new))"
    by (rule distinct_map[THEN iffD1, THEN conjunct1])
  with b assms(2) show ?thesis
    by (simp add: length_spawned cleanupBalls_balls)
qed

theorem projectile_cap_witness:
  "neverTooFar (replicate 12 SpawnBall) SoccerScene_new \<and>
   maxBalls < count_list (replicate 12 SpawnBall) SpawnBall \<and>
   length (balls (run (replicate 12 SpawnBall) SoccerScene_new)) = 10 \<and>
   balls (run (replicate 12 SpawnBall) SoccerScene_new)
     = map (\<lambda>i. \<lparr> mesh = 8 + i, rigidBody = i \<rparr>) [2..<12]"
proof -
  have n: "neverTooFar (replicate 12 SpawnBall) SoccerScene_new"
    by (simp add: neverTooFar_spawns wellFormed_new new_fields)
  have c: "count_list (replicate 12 SpawnBall) SpawnBall = 12"
    by (simp add: count_list_replicate)
  have m: "maxBalls < count_list (replicate 12 SpawnBall) SpawnBall"
    by (simp add: c maxBalls_def)
  from projectile_cap[OF n m] n m show ?thesis
    by (simp add: c spawned_replicate new_fields maxBalls_def drop_map upt_rec)
qed

text \<open>
  Claim C1 as it is stated gives the survivors as the \<open>N - cap\<close> balls spawned last.
  After 12 spawn ticks these would be 2 balls; the survivors are 10 balls, among them
  the third ball spawned, which is not one of the last 2.
\<close>

theorem projectile_cap_counterexample:
  "neverTooFar (replicate 12 SpawnBall) SoccerScene_new \<and>
   count_list (replicate 12 SpawnBall) SpawnBall = 12 \<and>
   length (balls (run (replicate 12 SpawnBall) SoccerScene_new)) = 10 \<and>
   length (drop (12 - (12 - maxBalls)) (spawned (replicate 12 SpawnBall) SoccerScene_new)) = 2 \<and>
   set (balls (run (replicate 12 SpawnBall) SoccerScene_new))
     \<noteq> set (drop (12 - (12 - maxBalls)) (spawned (replicate 12 SpawnBall) SoccerScene_new))"
proof -
  have n: "neverTooFar (replicate 12 SpawnBall) SoccerScene_new"
    by (simp add: neverTooFar_spawns wellFormed_new new_fields)
  have b: "balls (run (replicate 12 SpawnBall) SoccerScene_new)
      = drop 2 (spawned (replicate 12 SpawnBall) SoccerScene_new)"
    using run_balls[OF wellFormed_new n]
    by (simp add: new_fields length_spawned count_list_replicate maxBalls_def)
  have "\<lparr> mesh = 10, rigidBody = 2 \<rparr> \<in> set (drop 2 (spawned (replicate 12 SpawnBall) SoccerScene_new))"
    by (simp add: spawned_replicate new_fields drop_map upt_rec)
  moreover have "\<lparr> mesh = 10, rigidBody = 2 \<rparr>
      \<notin> set (drop (12 - (12 - maxBalls)) (spawned (replicate 12 SpawnBall) SoccerScene_new))"
    by (simp add: spawned_replicate new_fields drop_map upt_rec maxBalls_def)
  ultimately show ?thesis
    using n unfolding b
    by (auto simp: count_list_replicate length_spawned maxBalls_def)
qed

lemma allNear_after_spawnBall: "allNear (spawnBall s)"
  unfolding allNear_def list_all_iff tooFar_spawnBall
  by (auto simp: spawnBall_def cleanupBalls_balls dest!: in_set_dropD)

lemma length_balls_spawnBall: "length (balls (spawnBall s)) \<le> maxBalls"
  by (simp add: spawnBall_def cleanupBalls_balls)

text \<open>
  Claim C2, as the code has it. The cleanup is the last statement of \<open>spawnBall\<close>
  and is called from nowhere else: after every spawn tick no live ball has a mesh
  farther than 10 units from the origin and at most 10 balls are live, whereas
  \<open>render\<close> makes one step of the physics and removes no ball.
\<close>

theorem cleanup_at_spawn_only:
  "allNear (spawnBall s) \<and> length (balls (spawnBall s)) \<le> maxBalls \<and>
   balls (renderScene phys s) = balls s \<and>
   steps (rapierWorld (renderScene phys s)) = Suc (steps (rapierWorld s))"
  by (simp add: allNear_after_spawnBall length_balls_spawnBall)

lemma balls_first_spawn: "balls (spawnBall SoccerScene_new) = [\<lparr> mesh = 8, rigidBody = 0 \<rparr>]"
  by (simp add: spawnBall_balls[OF wellFormed_new] new_fields newBall_def maxBalls_def)

theorem cleanup_at_spawn_only_witness:
  "allNear (spawnBall SoccerScene_new) \<and>
   balls (renderScene physics_fling (spawnBall SoccerScene_new)) = [\<lparr> mesh = 8, rigidBody = 0 \<rparr>]"
  using cleanup_at_spawn_only[of SoccerScene_new physics_fling] by (simp add: balls_first_spawn)

lemma fold_syncBall_single:
  "objects (fold syncBall [b] s) (mesh b) = (objects s (mesh b))
      \<lparr> position := \<lparr> vx = vx (translation (bodies (rapierWorld s) (rigidBody b))),
                      vy = vy (translation (bodies (rapierWorld s) (rigidBody b))),
                      vz = vz (translation (bodies (rapierWorld s) (rigidBody b))) \<rparr>,
        quaternion := \<lparr> qx = qx (rotation (bodies (rapierWorld s) (rigidBody b))),
                        qy = qy (rotation (bodies (rapierWorld s) (rigidBody b))),
                        qz = qz (rotation (bodies (rapierWorld s) (rigidBody b))),
                        qw = qw (rotation (bodies (rapierWorld s) (rigidBody b))) \<rparr> \<rparr>"
  by (simp add: syncBall_def Let_def)

text \<open>
  Claim C2 as it is stated fails: after one spawn tick and one \<open>render\<close> whose
  physics step moves the ball to \<open>(20, 0, 0)\<close>, the ball is still live, 20 units
  from the origin.
\<close>

theorem cleanup_not_every_step_counterexample:
  "balls (run [SpawnBall, Render physics_fling] SoccerScene_new) = [\<lparr> mesh = 8, rigidBody = 0 \<rparr>] \<and>
   steps (rapierWorld (run [SpawnBall, Render physics_fling] SoccerScene_new)) = 1 \<and>
   position (objects (run [SpawnBall, Render physics_fling] SoccerScene_new) 8) = vec 20 0 0 \<and>
   tooFar (run [SpawnBall, Render physics_fling] SoccerScene_new) \<lparr> mesh = 8, rigidBody = 0 \<rparr>"
proof -
  have b: "balls (spawnBall SoccerScene_new) = [\<lparr> mesh = 8, rigidBody = 0 \<rparr>]"
    by (rule balls_first_spawn)
  have p: "position (objects (renderScene physics_fling (spawnBall SoccerScene_new)) 8) = vec 20 0 0"
    using fold_syncBall_single[of "\<lparr> mesh = 8, rigidBody = 0 \<rparr>"]
    by (simp add: renderScene_def Let_def b World_step_def physics_fling_def vec_def)
  have "tooFar (renderScene physics_fling (spawnBall SoccerScene_new)) \<lparr> mesh = 8, rigidBody = 0 \<rparr>"
    by (simp add: tooFar_def p distanceFromOrigin_def vec_def removalDistance_def sqrt_gt_10)
  with b p show ?thesis
    by (simp add: new_fields SoccerScene_new_def scene_add_def Let_def World_new_def createCollider_def)
qed

section \<open>Properties of the collider proxies\<close>

lemma proxyFor_existing:
  "colliderBoxes s part = Some m \<Longrightarrow> proxyFor part s = (m, s)"
  by (simp add: proxyFor_def)

lemma proxyFor_proxy:
  "colliderBoxes (snd (proxyFor part s)) part = Some (fst (proxyFor part s))"
  by (simp add: proxyFor_def scene_add_def Let_def split: option.splits)

lemma proxyFor_keeps:
  "colliderBoxes s q = Some m \<Longrightarrow> colliderBoxes (snd (proxyFor part s)) q = Some m"
  by (auto simp: proxyFor_def scene_add_def Let_def split: option.splits)

lemma proxyFor_other_object:
  "wellFormed s \<Longrightarrow> colliderBoxes s q = Some m \<Longrightarrow> objects (snd (proxyFor part s)) m = objects s m"
  by (auto simp: proxyFor_def scene_add_def Let_def wellFormed_def split: option.splits)

lemma proxyFor_distinct:
  "wellFormed s \<Longrightarrow> colliderBoxes s q = Some m \<Longrightarrow> part \<noteq> q \<Longrightarrow> fst (proxyFor part s) \<noteq> m"
  by (auto simp: proxyFor_def scene_add_def Let_def wellFormed_def split: option.splits)

lemma updateColliderBox_colliderBoxes:
  "colliderBoxes (updateColliderBox e s) = colliderBoxes (snd (proxyFor (fst e) s))"
  by (simp add: updateColliderBox_def Let_def split_beta)

lemma updateColliderBox_placed:
  "objects (updateColliderBox (part, box) s) (fst (proxyFor part s)) =
     (objects (snd (proxyFor part s)) (fst (proxyFor part s)))
       \<lparr> position := spec_worldCenter box, scale := spec_worldExtent box \<rparr>"
  by (simp add: updateColliderBox_def Let_def split_beta spec_worldCenter_def spec_worldExtent_def)

lemma updateColliderBox_keeps:
  "colliderBoxes s q = Some m \<Longrightarrow> colliderBoxes (updateColliderBox e s) q = Some m"
  by (simp add: updateColliderBox_colliderBoxes proxyFor_keeps)

lemma updateColliderBox_other_object:
  assumes "wellFormed s" and "colliderBoxes s q = Some m" and "fst e \<noteq> q"
  shows "objects (updateColliderBox e s) m = objects s m"
  using proxyFor_distinct[OF assms(1,2), of "fst e"] proxyFor_other_object[OF assms(1,2), of "fst e"] assms(3)
  by (simp add: updateColliderBox_def Let_def split_beta)

lemma updateColliderBoxes_keeps:
  "colliderBoxes s q = Some m \<Longrightarrow> colliderBoxes (updateColliderBoxes bs s) q = Some m"
  unfolding updateColliderBoxes_def
  by (induction bs arbitrary: s) (simp_all add: updateColliderBox_keeps)

lemma updateColliderBoxes_other_object:
  "wellFormed s \<Longrightarrow> colliderBoxes s q = Some m \<Longrightarrow> q \<notin> fst ` set bs \<Longrightarrow>
   objects (updateColliderBoxes bs s) m = objects s m"
  unfolding updateColliderBoxes_def
proof (induction bs arbitrary: s)
  case Nil
  show ?case by simp
next
  case (Cons e es)
  have "objects (fold updateColliderBox es (updateColliderBox e s)) m
          = objects (updateColliderBox e s) m"
    using Cons.prems by (intro Cons.IH) (simp_all add: wellFormed_updateColliderBox updateColliderBox_keeps)
  also have "\<dots> = objects s m"
    using Cons.prems by (intro updateColliderBox_other_object) auto
  finally show ?case by simp
qed


lemma updateColliderBoxes_placed:
  assumes "wellFormed s" and "distinct (map fst bodyBoxes)" and "(part, box) \<in> set bodyBoxes"
  shows "\<exists>m. colliderBoxes (updateColliderBoxes bodyBoxes s) part = Some m \<and>
     position (objects (updateColliderBoxes bodyBoxes s) m) = spec_worldCenter box \<and>
     scale (objects (updateColliderBoxes bodyBoxes s) m) = spec_worldExtent box \<and>
     (\<forall>m0. colliderBoxes s part = Some m0 \<longrightarrow> m = m0 \<and>
        objects (updateColliderBoxes bodyBoxes s) m =
          (objects s m)\<lparr> position := spec_worldCenter box, scale := spec_worldExtent box \<rparr>)"
  using assms
proof (induction bodyBoxes arbitrary: s)
  case Nil
  then show ?case by simp
next
  case (Cons e es)
  let ?s1 = "updateColliderBox e s"
  have wf1: "wellFormed ?s1"
    using Cons.prems(1) by (rule wellFormed_updateColliderBox)
  have U: "updateColliderBoxes (e # es) s = updateColliderBoxes es ?s1"
    by (simp add: updateColliderBoxes_def)
  show ?case
  proof (cases "e = (part, box)")
    case True
    let ?m = "fst (proxyFor part s)"
    have c1: "colliderBoxes ?s1 part = Some ?m"
      using True by (simp add: updateColliderBox_colliderBoxes proxyFor_proxy)
    have "part \<notin> fst ` set es"
      using Cons.prems(2) True by auto
    then have "objects (updateColliderBoxes es ?s1) ?m = objects ?s1 ?m"
      using wf1 c1 by (intro updateColliderBoxes_other_object)
    then have o: "objects (updateColliderBoxes es ?s1) ?m =
        (objects (snd (proxyFor part s)) ?m)
          \<lparr> position := spec_worldCenter box, scale := spec_worldExtent box \<rparr>"
      using True by (simp add: updateColliderBox_placed)
    have k: "colliderBoxes (updateColliderBoxes es ?s1) part = Some ?m"
      using c1 by (rule updateColliderBoxes_keeps)
    have "\<forall>m0. colliderBoxes s part = Some m0 \<longrightarrow> ?m = m0 \<and>
        objects (updateColliderBoxes es ?s1) ?m =
          (objects s ?m)\<lparr> position := spec_worldCenter box, scale := spec_worldExtent box \<rparr>"
    proof (intro allI impI)
      fix m0 assume "colliderBoxes s part = Some m0"
      then have "proxyFor part s = (m0, s)" by (rule proxyFor_existing)
      with o show "?m = m0 \<and> objects (updateColliderBoxes es ?s1) ?m =
          (objects s ?m)\<lparr> position := spec_worldCenter box, scale := spec_worldExtent box \<rparr>"
        by simp
    qed
    moreover have "position (objects (updateColliderBoxes es ?s1) ?m) = spec_worldCenter box"
      and "scale (objects (updateColliderBoxes es ?s1) ?m) = spec_worldExtent box"
      using o by simp_all
    ultimately show ?thesis
      unfolding U using k by blast
  next
    case False
    with Cons.prems have mem: "(part, box) \<in> set es" and d: "distinct (map fst es)"
      and ne: "fst e \<noteq> part"
      by (auto simp: image_iff)
    from Cons.IH[OF wf1 d mem] obtain m where m:
      "colliderBoxes (updateColliderBoxes es ?s1) part = Some m"
      "position (objects (updateColliderBoxes es ?s1) m) = spec_worldCenter box"
      "scale (objects (updateColliderBoxes es ?s1) m) = spec_worldExtent box"
      "\<forall>m0. colliderBoxes ?s1 part = Some m0 \<longrightarrow> m = m0 \<and>
         objects (updateColliderBoxes es ?s1) m =
           (objects ?s1 m)\<lparr> position := spec_worldCenter box, scale := spec_worldExtent box \<rparr>"
      by blast
    have "\<forall>m0. colliderBoxes s part = Some m0 \<longrightarrow> m = m0 \<and>
         objects (updateColliderBoxes es ?s1) m =
           (objects s m)\<lparr> position := spec_worldCenter box, scale := spec_worldExtent box \<rparr>"
    proof (intro allI impI)
      fix m0 assume m0: "colliderBoxes s part = Some m0"
      then have "colliderBoxes ?s1 part = Some m0"
        by (rule updateColliderBox_keeps)
      with m(4) have mm: "m = m0" and oo: "objects (updateColliderBoxes es ?s1) m =
           (objects ?s1 m)\<lparr> position := spec_worldCenter box, scale := spec_worldExtent box \<rparr>"
        by blast+
      have eq: "objects ?s1 m0 = objects s m0"
        using Cons.prems(1) m0 ne by (rule updateColliderBox_other_object)
      from oo[unfolded mm] show "m = m0 \<and> objects (updateColliderBoxes es ?s1) m =
           (objects s m)\<lparr> position := spec_worldCenter box, scale := spec_worldExtent box \<rparr>"
        unfolding mm eq by simp
    qed
    with m(1-3) show ?thesis unfolding U by blast
  qed
qed

lemma updateColliderBoxes_creates:
  "part \<in> fst ` set bs \<Longrightarrow> \<exists>m. colliderBoxes (updateColliderBoxes bs s) part = Some m"
proof (induction bs arbitrary: s)
  case Nil
  then show ?case by simp
next
  case (Cons e es)
  show ?case
  proof (cases "fst e = part")
    case True
    then have "colliderBoxes (updateColliderBox e s) part = Some (fst (proxyFor part s))"
      by (simp add: updateColliderBox_colliderBoxes proxyFor_proxy)
    then show ?thesis
      using updateColliderBoxes_keeps[of "updateColliderBox e s" part _ es]
      by (simp add: updateColliderBoxes_def)
  next
    case False
    with Cons.prems have "part \<in> fst ` set es" by auto
    from Cons.IH[OF this, of "updateColliderBox e s"] show ?thesis
      by (simp add: updateColliderBoxes_def)
  qed
qed

lemma exec_keeps_proxy:
  "colliderBoxes s part = Some m \<Longrightarrow> colliderBoxes (exec c s) part = Some m"
  by (cases c) (simp_all add: updateColliderBoxes_keeps)

lemma run_keeps_proxy:
  "colliderBoxes s part = Some m \<Longrightarrow> colliderBoxes (run cs s) part = Some m"
  by (induction cs arbitrary: s) (simp_all add: exec_keeps_proxy)

lemma count_list_distinct: "distinct xs \<Longrightarrow> x \<in> set xs \<Longrightarrow> count_list xs x = 1"
  by (induction xs) (auto simp: count_list_0_iff)

lemma proxy_once:
  "wellFormed s \<Longrightarrow> colliderBoxes s part = Some m \<Longrightarrow> count_list (children s) m = 1"
  by (rule count_list_distinct) (auto simp: wellFormed_def)

lemma spec_world_finite:
  "spec_worldCenter \<lparr> minX = Num a, maxX = Num b, minY = Num c, maxY = Num d, color = col \<rparr>
     = vec ((b + a) / 2 * 3) ((d + c) / 2 * 3) 0"
  "spec_worldExtent \<lparr> minX = Num a, maxX = Num b, minY = Num c, maxY = Num d, color = col \<rparr>
     = vec ((b - a) * 3) ((d - c) * 3) (2 / 10)"
  by (simp_all add: spec_worldCenter_def spec_worldExtent_def vec_def jsub_def)

text \<open>
  Claim C9. The entries of \<open>bodyBoxes\<close> have distinct keys, as the entries of an
  object have, and none of the inherited names. After \<open>updateColliderBoxes\<close> on a
  well-formed scene, the proxy of every part in \<open>bodyBoxes\<close> sits at
  \<open>(centerX * 3, centerY * 3, 0)\<close>, where the centre is the midpoint of the part's
  box, and has the scale \<open>(width * 3, height * 3, 0.2)\<close>, where
  \<open>width = maxX - minX\<close> and \<open>height = maxY - minY\<close>; the z coordinate of the
  position is 0.
\<close>

theorem proxy_placement:
  assumes "wellFormed s" and "ownNames bodyBoxes"
    and "distinct (map fst bodyBoxes)" and "(part, box) \<in> set bodyBoxes"
  shows "\<exists>m. colliderBoxes (updateColliderBoxes bodyBoxes s) part = Some m \<and>
     position (objects (updateColliderBoxes bodyBoxes s) m) =
       \<lparr> vx = jmul (jdiv (jadd (maxX box) (minX box)) (Num 2)) (Num 3),
         vy = jmul (jdiv (jadd (maxY box) (minY box)) (Num 2)) (Num 3),
         vz = Num 0 \<rparr> \<and>
     scale (objects (updateColliderBoxes bodyBoxes s) m) =
       \<lparr> vx = jmul (jsub (maxX box) (minX box)) (Num 3),
         vy = jmul (jsub (maxY box) (minY box)) (Num 3),
         vz = Num (2 / 10) \<rparr> \<and>
     (\<forall>a b c d. minX box = Num a \<and> maxX box = Num b \<and> minY box = Num c \<and> maxY box = Num d \<longrightarrow>
        position (objects (updateColliderBoxes bodyBoxes s) m)
          = vec ((b + a) / 2 * 3) ((d + c) / 2 * 3) 0 \<and>
        scale (objects (updateColliderBoxes bodyBoxes s) m)
          = vec ((b - a) * 3) ((d - c) * 3) (2 / 10))"
proof -
  from updateColliderBoxes_placed[OF assms(1,3,4)] obtain m where
    "colliderBoxes (updateColliderBoxes bodyBoxes s) part = Some m"
    "position (objects (updateColliderBoxes bodyBoxes s) m) = spec_worldCenter box"
    "scale (objects (updateColliderBoxes bodyBoxes s) m) = spec_worldExtent box"
    by blast
  then show ?thesis
    by (intro exI[of _ m]) (simp add: spec_worldCenter_def spec_worldExtent_def vec_def jsub_def)
qed

text \<open>
  What a call of \<open>updateColliderBoxes\<close> creates. An entry whose part has a proxy
  leaves the scene graph, the allocation and the registry of the proxies as they
  are; an entry whose part has none creates one object, adds it to the scene graph
  and registers it. A call creates one object for every part of its input that had
  no proxy before the call, whatever the number of entries, and adds the new objects
  to the end of the scene graph.
\<close>

lemma updateColliderBox_graph_existing:
  assumes "colliderBoxes s (fst e) = Some m"
  shows "children (updateColliderBox e s) = children s"
    and "nextObject (updateColliderBox e s) = nextObject s"
    and "colliderBoxes (updateColliderBox e s) = colliderBoxes s"
  using assms by (simp_all add: updateColliderBox_def proxyFor_def Let_def)

lemma updateColliderBox_graph_new:
  assumes "colliderBoxes s (fst e) = None"
  shows "children (updateColliderBox e s) = children s @ [nextObject s]"
    and "nextObject (updateColliderBox e s) = Suc (nextObject s)"
    and "colliderBoxes (updateColliderBox e s) = (colliderBoxes s)(fst e \<mapsto> nextObject s)"
  using assms by (simp_all add: updateColliderBox_def proxyFor_def scene_add_def Let_def)

lemma card_new_parts:
  assumes "finite A" and "p \<notin> D"
  shows "card (insert p A - D) = Suc (card (A - insert p D))"
proof -
  have "insert p A - D = insert p (A - insert p D)"
    using assms(2) by auto
  moreover have "p \<notin> A - insert p D" by simp
  moreover have "finite (A - insert p D)" using assms(1) by simp
  ultimately show ?thesis by simp
qed

lemma upt_from: "[n ..< n + Suc k] = n # [Suc n ..< Suc n + k]"
  by (simp add: upt_conv_Cons)

lemma updateColliderBoxes_graph:
  "nextObject (updateColliderBoxes bs s)
     = nextObject s + card (fst ` set bs - dom (colliderBoxes s)) \<and>
   children (updateColliderBoxes bs s)
     = children s @ [nextObject s ..< nextObject s + card (fst ` set bs - dom (colliderBoxes s))]"
proof (induction bs arbitrary: s)
  case Nil
  show ?case by (simp add: updateColliderBoxes_def)
next
  case (Cons e es)
  have U: "updateColliderBoxes (e # es) s = updateColliderBoxes es (updateColliderBox e s)"
    by (simp add: updateColliderBoxes_def)
  show ?case
  proof (cases "colliderBoxes s (fst e)")
    case (Some m)
    then have "fst e \<in> dom (colliderBoxes s)" by auto
    then have "fst ` set (e # es) - dom (colliderBoxes s) = fst ` set es - dom (colliderBoxes s)"
      by auto
    then show ?thesis
      unfolding U using Cons.IH[of "updateColliderBox e s"]
      by (simp add: updateColliderBox_graph_existing[OF Some])
  next
    case None
    let ?s' = "updateColliderBox e s"
    let ?k = "card (fst ` set es - dom (colliderBoxes ?s'))"
    from None have n: "fst e \<notin> dom (colliderBoxes s)" by auto
    have d: "dom (colliderBoxes ?s') = insert (fst e) (dom (colliderBoxes s))"
      unfolding updateColliderBox_graph_new(3)[OF None] by simp
    have "card (insert (fst e) (fst ` set es) - dom (colliderBoxes s)) = Suc ?k"
      unfolding d by (rule card_new_parts) (simp_all add: n)
    then have c: "card (fst ` set (e # es) - dom (colliderBoxes s)) = Suc ?k"
      by simp
    have u: "[nextObject s ..< nextObject s + Suc ?k]
        = nextObject s # [Suc (nextObject s) ..< Suc (nextObject s) + ?k]"
      by (rule upt_from)
    from Cons.IH[of ?s'] have
      "nextObject (updateColliderBoxes es ?s') = Suc (nextObject s) + ?k"
      "children (updateColliderBoxes es ?s')
         = (children s @ [nextObject s]) @ [Suc (nextObject s) ..< Suc (nextObject s) + ?k]"
      unfolding updateColliderBox_graph_new(1,2)[OF None] by blast+
    then show ?thesis
      unfolding U c u by simp
  qed
qed

lemma updateColliderBoxes_no_creation:
  assumes "fst ` set bs \<subseteq> dom (colliderBoxes s)"
  shows "children (updateColliderBoxes bs s) = children s"
    and "nextObject (updateColliderBoxes bs s) = nextObject s"
proof -
  from assms have "fst ` set bs - dom (colliderBoxes s) = {}" by auto
  with updateColliderBoxes_graph[of bs s]
  show "children (updateColliderBoxes bs s) = children s"
    and "nextObject (updateColliderBoxes bs s) = nextObject s"
    by simp_all
qed

text \<open>
  Claim C5. Let two consecutive calls of \<open>updateColliderBoxes\<close> both have a box for a
  part, with any calls of \<open>spawnBall\<close> and \<open>render\<close> between them. The first call
  leaves the part with a proxy; the second call finds the same object as the part's
  proxy, the object is in the scene graph once after the first call and once after
  the second, and the second call changes nothing of the object but its position and
  its scale, which it sets from its own box. The proxy was allocated before the
  second call. Each call creates one object for every part of its input that had no
  proxy before it, and the scene graph after the call is the scene graph before it
  followed by the objects created: the second call creates an object only for the
  other parts of its input that had no proxy, none for this part, and when every
  part of its input has a proxy it leaves the scene graph and the allocation as they
  were.
\<close>

theorem proxy_identity:
  assumes "wellFormed s" and "part \<in> fst ` set boxes1"
      and "distinct (map fst boxes2)" and "(part, box2) \<in> set boxes2"
      and "ownNames boxes1" and "ownNames boxes2" and "noUpdates cs"
  shows "\<exists>m. colliderBoxes (updateColliderBoxes boxes1 s) part = Some m \<and>
     colliderBoxes (run cs (updateColliderBoxes boxes1 s)) part = Some m \<and>
     colliderBoxes (updateColliderBoxes boxes2 (run cs (updateColliderBoxes boxes1 s))) part = Some m \<and>
     count_list (children (updateColliderBoxes boxes1 s)) m = 1 \<and>
     count_list (children (updateColliderBoxes boxes2 (run cs (updateColliderBoxes boxes1 s)))) m = 1 \<and>
     objects (updateColliderBoxes boxes2 (run cs (updateColliderBoxes boxes1 s))) m =
       (objects (run cs (updateColliderBoxes boxes1 s)) m)
         \<lparr> position := spec_worldCenter box2, scale := spec_worldExtent box2 \<rparr> \<and>
     m < nextObject (updateColliderBoxes boxes1 s) \<and>
     m < nextObject (run cs (updateColliderBoxes boxes1 s)) \<and>
     nextObject (updateColliderBoxes boxes1 s)
       = nextObject s + card (fst ` set boxes1 - dom (colliderBoxes s)) \<and>
     children (updateColliderBoxes boxes1 s)
       = children s @ [nextObject s ..< nextObject (updateColliderBoxes boxes1 s)] \<and>
     nextObject (updateColliderBoxes boxes2 (run cs (updateColliderBoxes boxes1 s)))
       = nextObject (run cs (updateColliderBoxes boxes1 s))
         + card (fst ` set boxes2 - {part} - dom (colliderBoxes (run cs (updateColliderBoxes boxes1 s)))) \<and>
     children (updateColliderBoxes boxes2 (run cs (updateColliderBoxes boxes1 s)))
       = children (run cs (updateColliderBoxes boxes1 s))
         @ [nextObject (run cs (updateColliderBoxes boxes1 s)) ..<
            nextObject (updateColliderBoxes boxes2 (run cs (updateColliderBoxes boxes1 s)))] \<and>
     (fst ` set boxes2 \<subseteq> dom (colliderBoxes (run cs (updateColliderBoxes boxes1 s))) \<longrightarrow>
        children (updateColliderBoxes boxes2 (run cs (updateColliderBoxes boxes1 s)))
          = children (run cs (updateColliderBoxes boxes1 s)) \<and>
        nextObject (updateColliderBoxes boxes2 (run cs (updateColliderBoxes boxes1 s)))
          = nextObject (run cs (updateColliderBoxes boxes1 s)))"
proof -
  let ?s1 = "updateColliderBoxes boxes1 s"
  let ?s1' = "run cs ?s1"
  let ?s2 = "updateColliderBoxes boxes2 ?s1'"
  from updateColliderBoxes_creates[OF assms(2)] obtain m where m1: "colliderBoxes ?s1 part = Some m"
    by blast
  then have m1': "colliderBoxes ?s1' part = Some m"
    by (rule run_keeps_proxy)
  have wf1: "wellFormed ?s1"
    using assms(1) by (rule wellFormed_updateColliderBoxes)
  then have wf1': "wellFormed ?s1'"
    by (rule wellFormed_run)
  then have wf2: "wellFormed ?s2"
    by (rule wellFormed_updateColliderBoxes)
  from updateColliderBoxes_placed[OF wf1' assms(3,4)] m1'
  have m2: "colliderBoxes ?s2 part = Some m"
    and o: "objects ?s2 m = (objects ?s1' m)
         \<lparr> position := spec_worldCenter box2, scale := spec_worldExtent box2 \<rparr>"
    by auto
  have a1: "m < nextObject ?s1" and a1': "m < nextObject ?s1'"
    using wf1 m1 wf1' m1' by (auto simp: wellFormed_def)
  have "part \<in> dom (colliderBoxes ?s1')"
    using m1' by auto
  then have p: "fst ` set boxes2 - {part} - dom (colliderBoxes ?s1')
      = fst ` set boxes2 - dom (colliderBoxes ?s1')"
    by auto
  have g1: "nextObject ?s1 = nextObject s + card (fst ` set boxes1 - dom (colliderBoxes s))"
    and c1: "children ?s1 = children s @ [nextObject s ..< nextObject ?s1]"
    using updateColliderBoxes_graph[of boxes1 s] by simp_all
  have g2: "nextObject ?s2
       = nextObject ?s1' + card (fst ` set boxes2 - {part} - dom (colliderBoxes ?s1'))"
    and c2: "children ?s2 = children ?s1' @ [nextObject ?s1' ..< nextObject ?s2]"
    unfolding p using updateColliderBoxes_graph[of boxes2 ?s1'] by simp_all
  have n: "fst ` set boxes2 \<subseteq> dom (colliderBoxes ?s1') \<longrightarrow>
        children ?s2 = children ?s1' \<and> nextObject ?s2 = nextObject ?s1'"
    using updateColliderBoxes_no_creation[of boxes2 ?s1'] by blast
  show ?thesis
    using m1 m1' m2 o proxy_once[OF wf1 m1] proxy_once[OF wf2 m2] a1 a1' g1 c1 g2 c2 n by blast
qed

lemma new_graph:
  "nextObject SoccerScene_new = 8" "colliderBoxes SoccerScene_new = Map.empty"
  by (simp_all add: SoccerScene_new_def scene_add_def Let_def)

lemma first_proxy:
  "colliderBoxes (updateColliderBoxes ((''head'', box) # rest) SoccerScene_new) ''head'' = Some 8"
proof -
  have "colliderBoxes (updateColliderBox (''head'', box) SoccerScene_new) ''head'' = Some 8"
    by (simp add: updateColliderBox_colliderBoxes proxyFor_def scene_add_def SoccerScene_new_def
        Let_def)
  then show ?thesis
    using updateColliderBoxes_keeps[of "updateColliderBox (''head'', box) SoccerScene_new" "''head''" 8 rest]
    by (simp add: updateColliderBoxes_def)
qed

theorem proxy_placement_witness:
  "wellFormed SoccerScene_new \<and>
   ownNames [(''head'', head_frame1), (''torso'', torso_frame1)] \<and>
   distinct (map fst [(''head'', head_frame1), (''torso'', torso_frame1)]) \<and>
   (''head'', head_frame1) \<in> set [(''head'', head_frame1), (''torso'', torso_frame1)] \<and>
   colliderBoxes (updateColliderBoxes [(''head'', head_frame1), (''torso'', torso_frame1)]
                    SoccerScene_new) ''head'' = Some 8 \<and>
   position (objects (updateColliderBoxes [(''head'', head_frame1), (''torso'', torso_frame1)]
                        SoccerScene_new) 8) = vec 0 (3 / 2) 0 \<and>
   scale (objects (updateColliderBoxes [(''head'', head_frame1), (''torso'', torso_frame1)]
                     SoccerScene_new) 8) = vec 3 3 (2 / 10)"
proof -
  have d: "distinct (map fst [(''head'', head_frame1), (''torso'', torso_frame1)])"
    and m: "(''head'', head_frame1) \<in> set [(''head'', head_frame1), (''torso'', torso_frame1)]"
    and n: "ownNames [(''head'', head_frame1), (''torso'', torso_frame1)]"
    by (simp_all add: ownNames_def Object_prototype_names_def)
  let ?s = "updateColliderBoxes [(''head'', head_frame1), (''torso'', torso_frame1)] SoccerScene_new"
  from proxy_placement[OF wellFormed_new n d m] obtain i where
    i: "colliderBoxes ?s ''head'' = Some i"
    and p: "position (objects ?s i) =
       \<lparr> vx = jmul (jdiv (jadd (maxX head_frame1) (minX head_frame1)) (Num 2)) (Num 3),
         vy = jmul (jdiv (jadd (maxY head_frame1) (minY head_frame1)) (Num 2)) (Num 3),
         vz = Num 0 \<rparr>"
    and e: "scale (objects ?s i) =
       \<lparr> vx = jmul (jsub (maxX head_frame1) (minX head_frame1)) (Num 3),
         vy = jmul (jsub (maxY head_frame1) (minY head_frame1)) (Num 3),
         vz = Num (2 / 10) \<rparr>"
    by blast
  from i first_proxy[of head_frame1 "[(''torso'', torso_frame1)]"] have "i = 8"
    by simp
  with i p e show ?thesis
    using wellFormed_new n by (simp add: head_frame1_def vec_def jsub_def)
qed

theorem proxy_identity_witness:
  "wellFormed SoccerScene_new \<and>
   ownNames [(''head'', head_frame1), (''torso'', torso_frame1)] \<and>
   ownNames [(''head'', head_frame2)] \<and>
   noUpdates [SpawnBall, Render physics_still] \<and>
   ''head'' \<in> fst ` set [(''head'', head_frame1), (''torso'', torso_frame1)] \<and>
   distinct (map fst [(''head'', head_frame2)]) \<and>
   (''head'', head_frame2) \<in> set [(''head'', head_frame2)] \<and>
   colliderBoxes (updateColliderBoxes [(''head'', head_frame1), (''torso'', torso_frame1)]
                    SoccerScene_new) ''head'' = Some 8 \<and>
   colliderBoxes (updateColliderBoxes [(''head'', head_frame2)]
       (run [SpawnBall, Render physics_still]
          (updateColliderBoxes [(''head'', head_frame1), (''torso'', torso_frame1)]
             SoccerScene_new))) ''head'' = Some 8 \<and>
   count_list (children (updateColliderBoxes [(''head'', head_frame2)]
       (run [SpawnBall, Render physics_still]
          (updateColliderBoxes [(''head'', head_frame1), (''torso'', torso_frame1)]
             SoccerScene_new)))) 8 = 1 \<and>
   position (objects (updateColliderBoxes [(''head'', head_frame2)]
       (run [SpawnBall, Render physics_still]
          (updateColliderBoxes [(''head'', head_frame1), (''torso'', torso_frame1)]
             SoccerScene_new))) 8) = vec (3 / 4) (9 / 4) 0 \<and>
   scale (objects (updateColliderBoxes [(''head'', head_frame2)]
       (run [SpawnBall, Render physics_still]
          (updateColliderBoxes [(''head'', head_frame1), (''torso'', torso_frame1)]
             SoccerScene_new))) 8) = vec (3 / 2) (3 / 2) (2 / 10) \<and>
   nextObject (updateColliderBoxes [(''head'', head_frame1), (''torso'', torso_frame1)]
                 SoccerScene_new) = 10 \<and>
   nextObject (updateColliderBoxes [(''head'', head_frame2)]
       (run [SpawnBall, Render physics_still]
          (updateColliderBoxes [(''head'', head_frame1), (''torso'', torso_frame1)]
             SoccerScene_new))) = 11 \<and>
   children (updateColliderBoxes [(''head'', head_frame2)]
       (run [SpawnBall, Render physics_still]
          (updateColliderBoxes [(''head'', head_frame1), (''torso'', torso_frame1)]
             SoccerScene_new)))
     = children (run [SpawnBall, Render physics_still]
          (updateColliderBoxes [(''head'', head_frame1), (''torso'', torso_frame1)]
             SoccerScene_new))"
proof -
  have a: "''head'' \<in> fst ` set [(''head'', head_frame1), (''torso'', torso_frame1)]"
    and d: "distinct (map fst [(''head'', head_frame2)])"
    and m: "(''head'', head_frame2) \<in> set [(''head'', head_frame2)]"
    and n: "ownNames [(''head'', head_frame1), (''torso'', torso_frame1)]"
           "ownNames [(''head'', head_frame2)]" "noUpdates [SpawnBall, Render physics_still]"
    by (simp_all add: ownNames_def Object_prototype_names_def noUpdates_def)
  let ?s1 = "updateColliderBoxes [(''head'', head_frame1), (''torso'', torso_frame1)] SoccerScene_new"
  let ?s1' = "run [SpawnBall, Render physics_still] ?s1"
  let ?s2 = "updateColliderBoxes [(''head'', head_frame2)] ?s1'"
  from proxy_identity[OF wellFormed_new a d m n] obtain i where
    i: "colliderBoxes ?s1 ''head'' = Some i" "colliderBoxes ?s2 ''head'' = Some i"
       "count_list (children ?s2) i = 1"
    and o: "objects ?s2 i = (objects ?s1' i)
         \<lparr> position := spec_worldCenter head_frame2, scale := spec_worldExtent head_frame2 \<rparr>"
    and g1: "nextObject ?s1 = nextObject SoccerScene_new
         + card (fst ` set [(''head'', head_frame1), (''torso'', torso_frame1)]
                 - dom (colliderBoxes SoccerScene_new))"
    and g2: "nextObject ?s2 = nextObject ?s1'
         + card (fst ` set [(''head'', head_frame2)] - {''head''} - dom (colliderBoxes ?s1'))"
    and c2: "children ?s2 = children ?s1' @ [nextObject ?s1' ..< nextObject ?s2]"
    by blast
  from i(1) first_proxy[of head_frame1 "[(''torso'', torso_frame1)]"] have "i = 8"
    by simp
  from g1 have n1: "nextObject ?s1 = 10"
    by (simp add: new_graph)
  then have n1': "nextObject ?s1' = 11"
    by simp
  from g2 have n2: "nextObject ?s2 = 11"
    unfolding n1' by simp
  from c2 have ch: "children ?s2 = children ?s1'"
    unfolding n1' n2 by simp
  from i o \<open>i = 8\<close> n1 n2 ch show ?thesis
    using wellFormed_new n
    by (simp add: spec_worldCenter_def spec_worldExtent_def vec_def jsub_def head_frame2_def)
qed

section \<open>Properties of the frame loop\<close>

lemma rearm_fields [simp]:
  "soccerScene (rearm pg) = soccerScene pg"
  "rafQueue (rearm pg) = rafQueue pg @ [(nextRafId pg, CbDetectPose)]"
  "cancelled (rearm pg) = cancelled pg"
  "nextRafId (rearm pg) = Suc (nextRafId pg)"
  by (simp_all add: rearm_def requestAnimationFrame_def Let_def)

lemma render_fields [simp]:
  "soccerScene (render phys pg) = renderScene phys (soccerScene pg)"
  "rafQueue (render phys pg) = rafQueue pg @ [(nextRafId pg, CbRender)]"
  "cancelled (render phys pg) = cancelled pg"
  "nextRafId (render phys pg) = Suc (nextRafId pg)"
  by (simp_all add: render_def requestAnimationFrame_def Let_def)

lemma detectPose_noDetection: "noDetection env \<Longrightarrow> detectPose env pg = rearm pg"
  by (auto simp: noDetection_def detectorRuns_def detectPose_def bind_err_def
      split: sum.splits option.splits list.splits)

lemma connections_in_full_pose:
  "33 \<le> length pose \<Longrightarrow>
   \<not> list_ex (\<lambda>c. at_index pose (fst c) = None \<or> at_index pose (snd c) = None) connections"
  by (auto simp: connections_def at_index_def)

lemma detectPose_fullDetection:
  assumes "fullDetection env"
  shows "\<exists>b. detectPose env pg =
     rearm (render (physics env)
              (pg\<lparr> soccerScene := updateColliderBoxes (Object_entries b) (soccerScene pg) \<rparr>))"
proof -
  from assms obtain pose others where
    d: "detectForVideo env = Inr (Some (pose # others))" and l: "33 \<le> length pose"
    by (auto simp: fullDetection_def split: sum.splits option.splits list.splits)
  from mapper_total_on_full_pose[OF l, of others] obtain b where
    b: "calculateBodyBoundingBoxes (Some (pose # others)) = Inr (Some b)"
    by blast
  from l have ne: "pose \<noteq> []" by auto
  have "drawResults env (Some (pose # others)) pg =
      Inr (render (physics env)
             (pg\<lparr> soccerScene := updateColliderBoxes (Object_entries b) (soccerScene pg) \<rparr>))"
    using connections_in_full_pose[OF l]
    by (simp add: drawResults_def ne b bind_err_def)
  then have "detectPose env pg =
     rearm (render (physics env)
              (pg\<lparr> soccerScene := updateColliderBoxes (Object_entries b) (soccerScene pg) \<rparr>))"
    using assms by (simp add: detectPose_def fullDetection_def detectorRuns_def d b bind_err_def)
  then show ?thesis by blast
qed


lemma fold_syncBall_other:
  "i \<notin> mesh ` set bs \<Longrightarrow> objects (fold syncBall bs s) i = objects s i"
  by (induction bs arbitrary: s) (auto simp: syncBall_def Let_def)

lemma renderScene_other:
  "i \<notin> mesh ` set (balls s) \<Longrightarrow> objects (renderScene phys s) i = objects s i"
  by (simp add: renderScene_def Let_def fold_syncBall_other)

lemma renderScene_proxy:
  "wellFormed s \<Longrightarrow> colliderBoxes s part = Some m \<Longrightarrow> objects (renderScene phys s) m = objects s m"
  by (rule renderScene_other) (auto simp: wellFormed_def)

text \<open>A frame with no detection: every pending callback runs; a pending \<open>render\<close>
  steps and draws once, the pending \<open>detectPose\<close> only requests its next call.\<close>

lemma runCallbacks_noDetection:
  assumes "noDetection env" and "cancelled pg = []"
  shows "cancelled (runCallbacks env rs pg) = [] \<and>
     colliderBoxes (soccerScene (runCallbacks env rs pg)) = colliderBoxes (soccerScene pg) \<and>
     children (soccerScene (runCallbacks env rs pg)) = children (soccerScene pg) \<and>
     nextObject (soccerScene (runCallbacks env rs pg)) = nextObject (soccerScene pg) \<and>
     balls (soccerScene (runCallbacks env rs pg)) = balls (soccerScene pg) \<and>
     steps (rapierWorld (soccerScene (runCallbacks env rs pg)))
       = steps (rapierWorld (soccerScene pg)) + length (filter (\<lambda>r. snd r = CbRender) rs) \<and>
     rendered (soccerScene (runCallbacks env rs pg))
       = rendered (soccerScene pg) + length (filter (\<lambda>r. snd r = CbRender) rs)"
  using assms(2)
proof (induction rs arbitrary: pg)
  case Nil
  show ?case using Nil by simp
next
  case (Cons r rs)
  show ?case
  proof (cases "snd r")
    case CbDetectPose
    with Cons.IH[of "rearm pg"] Cons.prems show ?thesis
      by (simp add: runCallback_def detectPose_noDetection[OF assms(1)])
  next
    case CbRender
    with Cons.IH[of "render (physics env) pg"] Cons.prems show ?thesis
      by (simp add: runCallback_def)
  qed
qed

lemma runCallbacks_noDetection_proxy:
  assumes "noDetection env" and "cancelled pg = []" and "wellFormed (soccerScene pg)"
    and "colliderBoxes (soccerScene pg) part = Some m"
  shows "objects (soccerScene (runCallbacks env rs pg)) m = objects (soccerScene pg) m"
  using assms(2-4)
proof (induction rs arbitrary: pg)
  case Nil
  show ?case by simp
next
  case (Cons r rs)
  show ?case
  proof (cases "snd r")
    case CbDetectPose
    with Cons.IH[of "rearm pg"] Cons.prems show ?thesis
      by (simp add: runCallback_def detectPose_noDetection[OF assms(1)])
  next
    case CbRender
    with Cons.IH[of "render (physics env) pg"] Cons.prems show ?thesis
      by (simp add: runCallback_def wellFormed_renderScene renderScene_proxy)
  qed
qed

lemma noDetection_frame_empty: "noDetection frame_empty"
  by (simp add: noDetection_def detectorRuns_def frame_empty_def frame_detected_def)

lemma page_new_fields:
  "rafQueue page_new = []" "nextRafId page_new = 1" "cancelled page_new = []"
  "soccerScene page_new = SoccerScene_new"
  by (simp_all add: page_new_def)

lemma new_steps: "steps (rapierWorld SoccerScene_new) = 0" "rendered SoccerScene_new = 0"
  by (simp_all add: SoccerScene_new_def scene_add_def Let_def World_new_def createCollider_def)

text \<open>
  A display frame with no detection and no pending call of \<open>render\<close>: only
  \<open>detectPose\<close> runs, and it requests its next call and nothing else. When the loop
  starts with no detection, no call of \<open>render\<close> is pending after any number of such
  frames.
\<close>

lemma runCallbacks_noDetection_idle:
  assumes "noDetection env" and "cancelled pg = []"
    and "filter (\<lambda>r. snd r = CbRender) rs = []"
  shows "soccerScene (runCallbacks env rs pg) = soccerScene pg"
  using assms(2,3)
proof (induction rs arbitrary: pg)
  case Nil
  show ?case by simp
next
  case (Cons r rs)
  from Cons.prems(2) have r: "snd r = CbDetectPose" and rs: "filter (\<lambda>r. snd r = CbRender) rs = []"
    by (cases "snd r"; simp split: if_splits)+
  with Cons.IH[of "rearm pg"] Cons.prems(1) show ?case
    by (simp add: runCallback_def detectPose_noDetection[OF assms(1)])
qed

lemma runCallbacks_noDetection_pending:
  assumes "noDetection env" and "cancelled pg = []"
  shows "pendingRenders (runCallbacks env rs pg)
     = pendingRenders pg + length (filter (\<lambda>r. snd r = CbRender) rs)"
  using assms(2)
proof (induction rs arbitrary: pg)
  case Nil
  show ?case by simp
next
  case (Cons r rs)
  show ?case
  proof (cases "snd r")
    case CbDetectPose
    with Cons.IH[of "rearm pg"] Cons.prems show ?thesis
      by (simp add: runCallback_def detectPose_noDetection[OF assms(1)] pendingRenders_def)
  next
    case CbRender
    with Cons.IH[of "render (physics env) pg"] Cons.prems show ?thesis
      by (simp add: runCallback_def pendingRenders_def)
  qed
qed

lemma displayFrame_noDetection_idle:
  assumes "noDetection env" and "pendingRenders pg = 0"
  shows "soccerScene (displayFrame env pg) = soccerScene pg"
    and "pendingRenders (displayFrame env pg) = 0"
  using runCallbacks_noDetection_idle[OF assms(1), of "pg\<lparr> rafQueue := [], cancelled := [] \<rparr>" "rafQueue pg"]
    runCallbacks_noDetection_pending[OF assms(1), of "pg\<lparr> rafQueue := [], cancelled := [] \<rparr>" "rafQueue pg"]
    assms(2)
  by (simp_all add: displayFrame_def pendingRenders_def)

lemma afterFrames_noDetection:
  assumes "noDetection env"
  shows "soccerScene (afterFrames env n) = SoccerScene_new \<and> pendingRenders (afterFrames env n) = 0"
proof (induction n)
  case 0
  show ?case
    by (simp add: afterFrames_def detectPose_noDetection[OF assms] pendingRenders_def page_new_fields)
next
  case (Suc n)
  have "afterFrames env (Suc n) = displayFrame env (afterFrames env n)"
    by (simp add: afterFrames_def)
  with displayFrame_noDetection_idle[OF assms, of "afterFrames env n"] Suc show ?case
    by simp
qed

text \<open>
  Claim C4 on the code. In a frame in which the detector runs and returns no
  detection, \<open>detectPose\<close> leaves the scene as it is: it does not update a proxy,
  does not step the physics and does not draw, and it requests no call of \<open>render\<close>.
  In the display frame the proxies, the scene graph and the objects of the proxies
  stay as they were. The physics is stepped and the scene is drawn once for every
  call of \<open>render\<close> that is pending, requested by a \<open>render\<close> of an earlier frame;
  with none pending, not at all. When the loop starts with no detection and the \<open>n\<close>
  display frames that follow have none, no call of \<open>render\<close> is ever pending: the
  scene is the one constructed, the physics has not been stepped and the scene has
  not been drawn.
\<close>

theorem no_detection_never_rendered:
  assumes "noDetection env"
  shows "soccerScene (detectPose env pg) = soccerScene pg \<and>
     pendingRenders (detectPose env pg) = pendingRenders pg \<and>
     colliderBoxes (soccerScene (displayFrame env pg)) = colliderBoxes (soccerScene pg) \<and>
     children (soccerScene (displayFrame env pg)) = children (soccerScene pg) \<and>
     (\<forall>part m. wellFormed (soccerScene pg) \<and> colliderBoxes (soccerScene pg) part = Some m \<longrightarrow>
        objects (soccerScene (displayFrame env pg)) m = objects (soccerScene pg) m) \<and>
     steps (rapierWorld (soccerScene (displayFrame env pg)))
       = steps (rapierWorld (soccerScene pg)) + pendingRenders pg \<and>
     rendered (soccerScene (displayFrame env pg)) = rendered (soccerScene pg) + pendingRenders pg \<and>
     pendingRenders (displayFrame env pg) = pendingRenders pg \<and>
     pendingRenders (afterFrames env n) = 0 \<and>
     soccerScene (afterFrames env n) = SoccerScene_new \<and>
     steps (rapierWorld (soccerScene (afterFrames env n))) = 0 \<and>
     rendered (soccerScene (afterFrames env n)) = 0"
  using runCallbacks_noDetection[OF assms, of "pg\<lparr> rafQueue := [], cancelled := [] \<rparr>" "rafQueue pg"]
    runCallbacks_noDetection_pending[OF assms, of "pg\<lparr> rafQueue := [], cancelled := [] \<rparr>" "rafQueue pg"]
    runCallbacks_noDetection_proxy[OF assms, of "pg\<lparr> rafQueue := [], cancelled := [] \<rparr>" _ _ "rafQueue pg"]
    afterFrames_noDetection[OF assms, of n]
  by (auto simp add: displayFrame_def pendingRenders_def detectPose_noDetection[OF assms] new_steps)

theorem no_detection_never_rendered_witness:
  "noDetection frame_empty \<and>
   rafQueue (afterFrames frame_empty 0) = [(1, CbDetectPose)] \<and>
   pendingRenders (afterFrames frame_empty 0) = 0 \<and>
   steps (rapierWorld (soccerScene (displayFrame frame_empty (afterFrames frame_empty 0)))) = 0 \<and>
   rendered (soccerScene (displayFrame frame_empty (afterFrames frame_empty 0))) = 0 \<and>
   steps (rapierWorld (soccerScene (afterFrames frame_empty 3))) = 0 \<and>
   rendered (soccerScene (afterFrames frame_empty 3)) = 0"
proof -
  have q: "rafQueue (afterFrames frame_empty 0) = [(1, CbDetectPose)]"
    by (simp add: afterFrames_def detectPose_noDetection[OF noDetection_frame_empty] page_new_fields)
  from no_detection_never_rendered[OF noDetection_frame_empty, of "afterFrames frame_empty 0" 0]
  have a: "pendingRenders (afterFrames frame_empty 0) = 0"
    and b: "steps (rapierWorld (soccerScene (displayFrame frame_empty (afterFrames frame_empty 0))))
      = steps (rapierWorld (soccerScene (afterFrames frame_empty 0))) + pendingRenders (afterFrames frame_empty 0)"
    and c: "rendered (soccerScene (displayFrame frame_empty (afterFrames frame_empty 0)))
      = rendered (soccerScene (afterFrames frame_empty 0)) + pendingRenders (afterFrames frame_empty 0)"
    and d: "steps (rapierWorld (soccerScene (afterFrames frame_empty 0))) = 0"
      "rendered (soccerScene (afterFrames frame_empty 0)) = 0"
    by blast+
  from no_detection_never_rendered[OF noDetection_frame_empty, of page_new 3]
  have e: "steps (rapierWorld (soccerScene (afterFrames frame_empty 3))) = 0"
    "rendered (soccerScene (afterFrames frame_empty 3)) = 0"
    by blast+
  from q a b c d e noDetection_frame_empty show ?thesis by simp
qed

subsection \<open>Frames with a detection\<close>

lemma runCallbacks_fullDetection:
  assumes "fullDetection env" and "cancelled pg = []"
  shows "cancelled (runCallbacks env rs pg) = [] \<and>
     steps (rapierWorld (soccerScene (runCallbacks env rs pg)))
       = steps (rapierWorld (soccerScene pg)) + length rs \<and>
     length (rafQueue (runCallbacks env rs pg))
       = length (rafQueue pg) + length rs + length (filter (\<lambda>r. snd r = CbDetectPose) rs) \<and>
     length (filter (\<lambda>r. snd r = CbDetectPose) (rafQueue (runCallbacks env rs pg)))
       = length (filter (\<lambda>r. snd r = CbDetectPose) (rafQueue pg))
         + length (filter (\<lambda>r. snd r = CbDetectPose) rs)"
  using assms(2)
proof (induction rs arbitrary: pg)
  case Nil
  show ?case using Nil by simp
next
  case (Cons r rs)
  show ?case
  proof (cases "snd r")
    case CbDetectPose
    from detectPose_fullDetection[OF assms(1), of pg] obtain b where
      b: "detectPose env pg = rearm (render (physics env)
            (pg\<lparr> soccerScene := updateColliderBoxes (Object_entries b) (soccerScene pg) \<rparr>))"
      by blast
    from Cons.IH[of "detectPose env pg"] Cons.prems CbDetectPose show ?thesis
      by (simp add: runCallback_def b)
  next
    case CbRender
    with Cons.IH[of "render (physics env) pg"] Cons.prems show ?thesis
      by (simp add: runCallback_def)
  qed
qed

lemma displayFrame_fullDetection:
  assumes "fullDetection env"
  shows "steps (rapierWorld (soccerScene (displayFrame env pg)))
       = steps (rapierWorld (soccerScene pg)) + length (rafQueue pg) \<and>
     length (rafQueue (displayFrame env pg))
       = length (rafQueue pg) + length (filter (\<lambda>r. snd r = CbDetectPose) (rafQueue pg)) \<and>
     length (filter (\<lambda>r. snd r = CbDetectPose) (rafQueue (displayFrame env pg)))
       = length (filter (\<lambda>r. snd r = CbDetectPose) (rafQueue pg))"
  using runCallbacks_fullDetection[OF assms, of "pg\<lparr> rafQueue := [], cancelled := [] \<rparr>" "rafQueue pg"]
  by (simp add: displayFrame_def)

lemma afterFrames_queue:
  assumes "fullDetection env"
  shows "length (rafQueue (afterFrames env n)) = n + 2 \<and>
     length (filter (\<lambda>r. snd r = CbDetectPose) (rafQueue (afterFrames env n))) = 1"
proof (induction n)
  case 0
  from detectPose_fullDetection[OF assms, of page_new] obtain b where
    "detectPose env page_new = rearm (render (physics env)
       (page_new\<lparr> soccerScene := updateColliderBoxes (Object_entries b) (soccerScene page_new) \<rparr>))"
    by blast
  then show ?case by (simp add: afterFrames_def page_new_fields)
next
  case (Suc n)
  have "afterFrames env (Suc n) = displayFrame env (afterFrames env n)"
    by (simp add: afterFrames_def)
  with displayFrame_fullDetection[OF assms, of "afterFrames env n"] Suc show ?case by simp
qed

text \<open>
  Claim C3 on the code. \<open>render\<close> requests its own next call, and \<open>drawResults\<close>
  calls \<open>render\<close> in every frame with a detection. When every frame has a full
  detection, the display frame that follows the start of the loop and \<open>n\<close> further
  display frames calls \<open>step()\<close> \<open>n + 2\<close> times: twice in the first display frame,
  three times in the second. One call of \<open>render\<close> steps once and copies the
  transforms by value (lemma \<open>render_once\<close> below).
\<close>

theorem render_loops_accumulate:
  assumes "fullDetection env"
  shows "steps (rapierWorld (soccerScene (displayFrame env (afterFrames env n))))
     = steps (rapierWorld (soccerScene (afterFrames env n))) + (n + 2)"
  using displayFrame_fullDetection[OF assms, of "afterFrames env n"] afterFrames_queue[OF assms, of n]
  by simp

lemma fullDetection_frame_detected: "fullDetection frame_detected"
  by (simp add: fullDetection_def detectorRuns_def frame_detected_def full_pose_def)

lemma steps_at_start:
  assumes "fullDetection env"
  shows "steps (rapierWorld (soccerScene (afterFrames env 0))) = 1"
proof -
  from detectPose_fullDetection[OF assms, of page_new] obtain b where
    "detectPose env page_new = rearm (render (physics env)
       (page_new\<lparr> soccerScene := updateColliderBoxes (Object_entries b) (soccerScene page_new) \<rparr>))"
    by blast
  then show ?thesis by (simp add: afterFrames_def page_new_fields new_steps)
qed

theorem render_loops_accumulate_witness:
  "fullDetection frame_detected \<and>
   steps (rapierWorld (soccerScene (afterFrames frame_detected 0))) = 1 \<and>
   steps (rapierWorld (soccerScene (displayFrame frame_detected (afterFrames frame_detected 0)))) = 3"
  using render_loops_accumulate[OF fullDetection_frame_detected, of 0] steps_at_start[OF fullDetection_frame_detected]
    fullDetection_frame_detected
  by simp

subsection \<open>One call of render\<close>

lemma fold_syncBall_synced:
  "distinct (map mesh bs) \<Longrightarrow> b \<in> set bs \<Longrightarrow>
   objects (fold syncBall bs s) (mesh b) = (objects s (mesh b))
      \<lparr> position := \<lparr> vx = vx (translation (bodies (rapierWorld s) (rigidBody b))),
                      vy = vy (translation (bodies (rapierWorld s) (rigidBody b))),
                      vz = vz (translation (bodies (rapierWorld s) (rigidBody b))) \<rparr>,
        quaternion := \<lparr> qx = qx (rotation (bodies (rapierWorld s) (rigidBody b))),
                        qy = qy (rotation (bodies (rapierWorld s) (rigidBody b))),
                        qz = qz (rotation (bodies (rapierWorld s) (rigidBody b))),
                        qw = qw (rotation (bodies (rapierWorld s) (rigidBody b))) \<rparr> \<rparr>"
proof (induction bs arbitrary: s)
  case Nil
  then show ?case by simp
next
  case (Cons a bs)
  show ?case
  proof (cases "b = a")
    case True
    with Cons.prems have "mesh a \<notin> mesh ` set bs" by simp
    then have "objects (fold syncBall bs (syncBall a s)) (mesh a) = objects (syncBall a s) (mesh a)"
      by (rule fold_syncBall_other)
    then have "objects (fold syncBall (a # bs) s) (mesh a) = objects (syncBall a s) (mesh a)"
      by simp
    also have "\<dots> = (objects s (mesh a))
      \<lparr> position := \<lparr> vx = vx (translation (bodies (rapierWorld s) (rigidBody a))),
                      vy = vy (translation (bodies (rapierWorld s) (rigidBody a))),
                      vz = vz (translation (bodies (rapierWorld s) (rigidBody a))) \<rparr>,
        quaternion := \<lparr> qx = qx (rotation (bodies (rapierWorld s) (rigidBody a))),
                        qy = qy (rotation (bodies (rapierWorld s) (rigidBody a))),
                        qz = qz (rotation (bodies (rapierWorld s) (rigidBody a))),
                        qw = qw (rotation (bodies (rapierWorld s) (rigidBody a))) \<rparr> \<rparr>"
      by (simp add: syncBall_def Let_def)
    finally show ?thesis unfolding True .
  next
    case False
    with Cons.prems have "b \<in> set bs" "distinct (map mesh bs)" "mesh b \<noteq> mesh a"
      by (auto simp: image_iff)
    with Cons.IH[of "syncBall a s"] show ?thesis
      by (simp add: syncBall_def Let_def)
  qed
qed

text \<open>
  One call of \<open>render\<close> on a well-formed scene: the world is stepped once and the
  scene is drawn once; the position and the quaternion of the mesh of every live ball
  are the components of the translation and the rotation of its rigid body after the
  step; a later change of the objects of the scene leaves the world as it is.
\<close>

lemma render_once:
  assumes "wellFormed s" and "b \<in> set (balls s)"
  shows "steps (rapierWorld (renderScene phys s)) = Suc (steps (rapierWorld s)) \<and>
     rendered (renderScene phys s) = Suc (rendered s) \<and>
     bodies (rapierWorld (renderScene phys s)) = phys (rapierWorld s) \<and>
     position (objects (renderScene phys s) (mesh b)) =
       \<lparr> vx = vx (translation (phys (rapierWorld s) (rigidBody b))),
         vy = vy (translation (phys (rapierWorld s) (rigidBody b))),
         vz = vz (translation (phys (rapierWorld s) (rigidBody b))) \<rparr> \<and>
     quaternion (objects (renderScene phys s) (mesh b)) =
       \<lparr> qx = qx (rotation (phys (rapierWorld s) (rigidBody b))),
         qy = qy (rotation (phys (rapierWorld s) (rigidBody b))),
         qz = qz (rotation (phys (rapierWorld s) (rigidBody b))),
         qw = qw (rotation (phys (rapierWorld s) (rigidBody b))) \<rparr> \<and>
     rapierWorld ((renderScene phys s)\<lparr> objects := f \<rparr>) = rapierWorld (renderScene phys s)"
proof -
  from assms have d: "distinct (map mesh (balls s))"
    by (simp add: wellFormed_def)
  show ?thesis
    using fold_syncBall_synced[OF d assms(2), of "s\<lparr> rapierWorld := World_step phys (rapierWorld s) \<rparr>"]
    by (simp add: renderScene_def Let_def World_step_def)
qed

end
